theory Spec2Isabelle
  imports Complex_Main
begin

section \<open>JavaScript numbers\<close>

text \<open>
  A JavaScript number is an IEEE 754 binary64 value. It is modelled by \<open>jsnum\<close>: the two
  infinities, \<open>NaN\<close>, and the finite values as the rationals they denote. Every
  arithmetic result is rounded to the nearest representable value, ties to even, by
  \<open>fl\<close> (53-bit significand, subnormals below \<open>2^-1022\<close>, overflow to infinity from
  \<open>2^1024\<close>). The one simplification: negative zero is identified with zero. Both
  are falsy and both print as \<open>0\<close>, and the script never divides by a value that can
  be a negative zero (its divisors are 100, an image height, and an aspect ratio that
  has been tested to be positive).
\<close>

datatype jsnum = NaN | PInf | NInf | Fin rat

text \<open>The number of binary digits of a positive integer.\<close>

function bit_length :: "int \<Rightarrow> int" where
  "bit_length n = (if n \<le> 0 then 0 else 1 + bit_length (n div 2))"
  by pat_completeness auto
termination
  by (relation "measure nat") auto

declare bit_length.simps [simp del]

definition pow2 :: "int \<Rightarrow> rat" where
  "pow2 e = (if 0 \<le> e then 2 ^ nat e else 1 / 2 ^ nat (- e))"

text \<open>\<open>flog2 q\<close> is the integer \<open>e\<close> with \<open>2^e \<le> q < 2^(e+1)\<close>, for positive \<open>q\<close>.\<close>

definition flog2 :: "rat \<Rightarrow> int" where
  "flog2 q =
     (if 1 \<le> q then bit_length \<lfloor>q\<rfloor> - 1
      else let j = bit_length \<lfloor>1 / q\<rfloor>
           in if pow2 (1 - j) \<le> q then 1 - j else - j)"

definition round_half_even :: "rat \<Rightarrow> int" where
  "round_half_even x =
     (let f = \<lfloor>x\<rfloor>; d = x - of_int f
      in if d < 1 / 2 then f
         else if 1 / 2 < d then f + 1
         else if even f then f else f + 1)"

text \<open>Rounding of an exact result to binary64.\<close>

definition fl :: "rat \<Rightarrow> jsnum" where
  "fl q =
     (if q = 0 then Fin 0
      else let e = max (flog2 \<bar>q\<bar> - 52) (- 1074);
               m = round_half_even (q / pow2 e)
           in if 1024 < bit_length \<bar>m\<bar> + e then (if 0 < q then PInf else NInf)
              else Fin (of_int m * pow2 e))"

subsection \<open>Number to string\<close>

text \<open>
  \<open>Number::toString\<close> of ECMAScript: the shortest digit string \<open>s\<close> of \<open>k\<close> digits
  with \<open>s * 10^(n-k)\<close> rounding to the number, printed plainly when \<open>n \<le> 21\<close>
  and in exponent form otherwise.
\<close>

definition pow10 :: "int \<Rightarrow> rat" where
  "pow10 e = (if 0 \<le> e then 10 ^ nat e else 1 / 10 ^ nat (- e))"

function digits10 :: "int \<Rightarrow> string" where
  "digits10 n =
     (if n < 10 then [''0123456789'' ! nat n]
      else digits10 (n div 10) @ [''0123456789'' ! nat (n mod 10)])"
  by pat_completeness auto
termination
  by (relation "measure nat") auto

declare digits10.simps [simp del]

definition dec_exp :: "rat \<Rightarrow> int" where
  "dec_exp q =
     (if 1 \<le> q then int (length (digits10 \<lfloor>q\<rfloor>))
      else let j = int (length (digits10 \<lfloor>1 / q\<rfloor>))
           in if pow10 (1 - j) \<le> q then 2 - j else 1 - j)"

fun find_digits :: "nat \<Rightarrow> nat \<Rightarrow> rat \<Rightarrow> int \<Rightarrow> int \<times> int \<times> nat" where
  "find_digits fuel k q n =
     (let u = pow10 (n - int k);
          lo = \<lfloor>q / u\<rfloor>;
          hi = lo + 1;
          okl = (fl (of_int lo * u) = Fin q);
          okh = (fl (of_int hi * u) = Fin q);
          s = (if okl \<and> (\<not> okh \<or> q - of_int lo * u \<le> of_int hi * u - q) then lo else hi)
      in if okl \<or> okh \<or> fuel = 0
         then (if s = 10 ^ k then (1, n + 1, 1) else (s, n, k))
         else find_digits (fuel - 1) (Suc k) q n)"

declare find_digits.simps [simp del]

definition format_digits :: "int \<times> int \<times> nat \<Rightarrow> string" where
  "format_digits t =
     (case t of (s, n, k) \<Rightarrow>
        let ds = digits10 s
        in if int k \<le> n \<and> n \<le> 21 then ds @ replicate (nat (n - int k)) CHR ''0''
           else if 0 < n \<and> n \<le> 21 then take (nat n) ds @ ''.'' @ drop (nat n) ds
           else if - 6 < n \<and> n \<le> 0 then ''0.'' @ replicate (nat (- n)) CHR ''0'' @ ds
           else let e = n - 1;
                    es = (if e < 0 then ''-'' else ''+'') @ digits10 \<bar>e\<bar>
                in if k = 1 then ds @ ''e'' @ es
                   else hd ds # ''.'' @ tl ds @ ''e'' @ es)"

definition js_toString :: "jsnum \<Rightarrow> string" where
  "js_toString x =
     (case x of
        NaN \<Rightarrow> ''NaN''
      | PInf \<Rightarrow> ''Infinity''
      | NInf \<Rightarrow> ''-Infinity''
      | Fin q \<Rightarrow>
          if q = 0 then ''0''
          else if q < 0 then ''-'' @ format_digits (find_digits 20 1 (- q) (dec_exp (- q)))
          else format_digits (find_digits 20 1 q (dec_exp q)))"

subsection \<open>Arithmetic, rounding, truthiness\<close>

fun js_mul :: "jsnum \<Rightarrow> jsnum \<Rightarrow> jsnum" where
  "js_mul (Fin x) (Fin y) = fl (x * y)"
| "js_mul NaN _ = NaN"
| "js_mul _ NaN = NaN"
| "js_mul PInf (Fin y) = (if y = 0 then NaN else if 0 < y then PInf else NInf)"
| "js_mul NInf (Fin y) = (if y = 0 then NaN else if 0 < y then NInf else PInf)"
| "js_mul (Fin x) PInf = (if x = 0 then NaN else if 0 < x then PInf else NInf)"
| "js_mul (Fin x) NInf = (if x = 0 then NaN else if 0 < x then NInf else PInf)"
| "js_mul PInf PInf = PInf"
| "js_mul PInf NInf = NInf"
| "js_mul NInf PInf = NInf"
| "js_mul NInf NInf = PInf"

fun js_div :: "jsnum \<Rightarrow> jsnum \<Rightarrow> jsnum" where
  "js_div (Fin x) (Fin y) =
     (if y = 0 then (if x = 0 then NaN else if 0 < x then PInf else NInf)
      else fl (x / y))"
| "js_div NaN _ = NaN"
| "js_div _ NaN = NaN"
| "js_div PInf (Fin y) = (if 0 \<le> y then PInf else NInf)"
| "js_div NInf (Fin y) = (if 0 \<le> y then NInf else PInf)"
| "js_div (Fin x) PInf = Fin 0"
| "js_div (Fin x) NInf = Fin 0"
| "js_div PInf PInf = NaN"
| "js_div PInf NInf = NaN"
| "js_div NInf PInf = NaN"
| "js_div NInf NInf = NaN"

text \<open>\<open>Math.round\<close>: the nearest integer, ties towards plus infinity.\<close>

definition Math_round :: "jsnum \<Rightarrow> jsnum" where
  "Math_round x = (case x of Fin q \<Rightarrow> Fin (of_int \<lfloor>q + 1 / 2\<rfloor>) | _ \<Rightarrow> x)"

text \<open>Truthiness of a number, the operator \<open>||\<close> on numbers, and the test \<open>x > 0\<close>.\<close>

definition js_truthy :: "jsnum \<Rightarrow> bool" where
  "js_truthy x = (x \<noteq> NaN \<and> x \<noteq> Fin 0)"

definition js_or :: "jsnum \<Rightarrow> jsnum \<Rightarrow> jsnum" where
  "js_or a b = (if js_truthy a then a else b)"

definition js_gt0 :: "jsnum \<Rightarrow> bool" where
  "js_gt0 x = (case x of Fin q \<Rightarrow> 0 < q | PInf \<Rightarrow> True | _ \<Rightarrow> False)"

text \<open>The conversion of an unsigned integer (an image dimension) to a number.\<close>

definition js_of_nat :: "nat \<Rightarrow> jsnum" where
  "js_of_nat n = fl (of_nat n)"

subsection \<open>\<open>parseInt\<close>\<close>

text \<open>
  \<open>parseInt(str)\<close> with no radix: leading white space is skipped, a sign is read, the
  prefix \<open>0x\<close> selects radix 16, the longest run of digits is read, and the result is
  \<open>NaN\<close> when that run is empty. The digits are read exactly and the value is
  rounded once. Strings are lists of 8-bit characters (the code units 0 to 255); the
  white space characters of ECMAScript among them are tab, line feed, vertical tab, form
  feed, carriage return, space and the no-break space U+00A0.
\<close>

definition is_space :: "char \<Rightarrow> bool" where
  "is_space c =
     (c \<in> set [CHR '' '', CHR 0x09, CHR 0x0A, CHR 0x0B, CHR 0x0C, CHR 0x0D, CHR 0xA0])"

definition digit_val :: "char \<Rightarrow> int option" where
  "digit_val c =
     (let n = (of_char c :: int)
      in if 48 \<le> n \<and> n \<le> 57 then Some (n - 48)
         else if 97 \<le> n \<and> n \<le> 102 then Some (n - 87)
         else if 65 \<le> n \<and> n \<le> 70 then Some (n - 55)
         else None)"

fun parse_digits :: "int \<Rightarrow> string \<Rightarrow> int list" where
  "parse_digits R [] = []"
| "parse_digits R (c # cs) =
     (case digit_val c of
        None \<Rightarrow> []
      | Some d \<Rightarrow> if d < R then d # parse_digits R cs else [])"

definition js_parseInt :: "string \<Rightarrow> jsnum" where
  "js_parseInt str =
     (let s = dropWhile is_space str;
          neg = (case s of c # _ \<Rightarrow> c = CHR ''-'' | [] \<Rightarrow> False);
          s = (case s of c # t \<Rightarrow> if c = CHR ''+'' \<or> c = CHR ''-'' then t else s | [] \<Rightarrow> s);
          hex = (case s of a # b # _ \<Rightarrow> a = CHR ''0'' \<and> (b = CHR ''x'' \<or> b = CHR ''X'') | _ \<Rightarrow> False);
          R = (if hex then 16 else 10);
          ds = parse_digits R (if hex then drop 2 s else s);
          v = foldl (\<lambda>a d. a * R + d) 0 ds
      in if ds = [] then NaN
         else fl (of_int (if neg then - v else v)))"


section \<open>Output format, MIME type and file name (script.js, lines 375-417)\<close>

text \<open>
  JavaScript values that are either a string or \<open>undefined\<close> are modelled as
  \<open>string option\<close>, with \<open>None\<close> for \<open>undefined\<close>.
\<close>

text \<open>\<open>s.split('/')[1]\<close>: the segment between the first and the second slash,
  \<open>undefined\<close> when \<open>s\<close> has no slash.\<close>

definition split_slash_1 :: "string \<Rightarrow> string option" where
  "split_slash_1 s =
     (case dropWhile (\<lambda>c. c \<noteq> CHR ''/'') s of
        [] \<Rightarrow> None
      | _ # rest \<Rightarrow> Some (takeWhile (\<lambda>c. c \<noteq> CHR ''/'') rest))"

text \<open>\<open>getOutputFormat(inputType)\<close>; the first argument is \<open>formatSelect.value\<close>.\<close>

definition getOutputFormat :: "string \<Rightarrow> string \<Rightarrow> string option" where
  "getOutputFormat selectedFormat inputType =
     (if selectedFormat = ''same'' then split_slash_1 inputType else Some selectedFormat)"

text \<open>\<open>getMimeType(format)\<close>: a \<open>switch\<close> with a \<open>default\<close> branch.\<close>

definition getMimeType :: "string option \<Rightarrow> string" where
  "getMimeType format =
     (if format = Some ''jpeg'' \<or> format = Some ''jpg'' then ''image/jpeg''
      else if format = Some ''png'' then ''image/png''
      else if format = Some ''webp'' then ''image/webp''
      else ''image/jpeg'')"

text \<open>The regular expression \<open>/\.[^\.]+$/\<close> tried at the head of a string: a dot, then
  one or more characters other than a dot, then the end of the input.\<close>

fun ext_match :: "string \<Rightarrow> bool" where
  "ext_match [] = False"
| "ext_match (c # cs) = (c = CHR ''.'' \<and> cs \<noteq> [] \<and> list_all (\<lambda>d. d \<noteq> CHR ''.'') cs)"

text \<open>\<open>inputName.replace(/\.[^\.]+$/, '')\<close>: the leftmost match is replaced by the empty
  string; the match always reaches the end of the input.\<close>

fun replace_ext :: "string \<Rightarrow> string" where
  "replace_ext [] = []"
| "replace_ext (c # cs) = (if ext_match (c # cs) then [] else c # replace_ext cs)"

text \<open>A template literal prints \<open>undefined\<close> as the word itself.\<close>

definition template_str :: "string option \<Rightarrow> string" where
  "template_str v = (case v of None \<Rightarrow> ''undefined'' | Some s \<Rightarrow> s)"

definition getOutputFileName :: "string \<Rightarrow> string option \<Rightarrow> string" where
  "getOutputFileName inputName outputFormat =
     (let baseName = replace_ext inputName
      in baseName @ ''-compressed.'' @ template_str outputFormat)"

text \<open>The specification's wording of the base name: the file name up to its last dot,
  when a non-empty extension follows that dot, and the whole name otherwise.\<close>

definition base_name_spec :: "string \<Rightarrow> string" where
  "base_name_spec name =
     (if CHR ''.'' \<in> set name \<and> last name \<noteq> CHR ''.''
      then rev (tl (dropWhile (\<lambda>c. c \<noteq> CHR ''.'') (rev name)))
      else name)"


section \<open>Files, blobs and the host\<close>

text \<open>
  A \<open>File\<close> carries a name, a MIME type, a size and its bytes (here an identifier of the
  content); a \<open>Blob\<close> a size and a MIME type.
\<close>

record jsfile =
  file_name :: string
  file_type :: string
  file_size :: nat
  file_data :: nat

record blob =
  blob_size :: nat
  blob_type :: string

text \<open>
  The browser facilities the script calls are parameters of the model:
  \<^item> \<open>readAsDataURL\<close>: whether \<open>FileReader.readAsDataURL\<close> ends in \<open>onload\<close>
    (otherwise in \<open>onerror\<close>);
  \<^item> \<open>loadImage\<close>: the pixel width and height when the image decodes (\<open>img.onload\<close>),
    \<open>None\<close> when it does not (\<open>img.onerror\<close>);
  \<^item> \<open>toBlob\<close>: the blob that \<open>canvas.toBlob\<close> hands to its callback, \<open>None\<close> for
    \<open>null\<close>, given the drawn file, the canvas width and height, the requested MIME
    type and the quality.
\<close>

record host =
  readAsDataURL :: "jsfile \<Rightarrow> bool"
  loadImage :: "jsfile \<Rightarrow> (nat \<times> nat) option"
  toBlob :: "jsfile \<Rightarrow> jsnum \<Rightarrow> jsnum \<Rightarrow> string \<Rightarrow> jsnum \<Rightarrow> blob option"

text \<open>The three ways the promise of \<open>compressImage\<close> is rejected.\<close>

datatype error =
    FailedToReadFile
  | FailedToLoadImage
  | FailedToCreateBlob

text \<open>The result object of \<open>compressImage\<close> (lines 338-349).\<close>

record result =
  r_blob :: blob
  r_url :: nat
  r_size :: nat
  r_width :: jsnum
  r_height :: jsnum
  r_originalSize :: nat
  r_originalWidth :: nat
  r_originalHeight :: nat
  r_name :: string
  r_type :: string

text \<open>The message posted to the worker (lines 566-573, 583-590), the message the worker
  posts back (lines 485-492), and an element of \<open>compressedFiles\<close> (lines 513-519).\<close>

record request =
  q_file :: jsfile
  q_quality :: jsnum
  q_resize :: bool
  q_width :: jsnum
  q_height :: jsnum
  q_outputFormat :: string

record reply =
  w_blob :: blob
  w_name :: string
  w_size :: nat
  w_originalSize :: nat
  w_width :: jsnum
  w_height :: jsnum

record entry =
  c_blob :: blob
  c_name :: string
  c_url :: nat
  c_size :: nat
  c_originalSize :: nat


section \<open>The state of the page\<close>

text \<open>
  The global variables of the script, the form controls it reads, the page elements a
  claim refers to, and the object URLs that are alive. Writes that only change the look of
  the page (\<open>style.display\<close>, preview sources, size and dimension labels) are left out.
  \<open>decoded\<close> is a ghost field: the files handed to a \<open>FileReader\<close> or an \<open>Image\<close> so
  far. \<open>workerRunning\<close> tells whether the worker of the last batch has yet to be
  terminated.
\<close>

record app =
  uploadedFiles :: "jsfile list"
  currentFile :: "jsfile option"
  compressedFile :: "blob option"
  compressedFiles :: "entry list"
  originalAspectRatio :: jsnum
  qualitySlider :: string
  resizeToggle :: bool
  resize_pixels :: bool
  resize_percentage :: bool
  widthInput :: string
  heightInput :: string
  maintainAspect :: bool
  percentageInput :: string
  formatSelect :: string
  compressBtn_disabled :: bool
  downloadBtn_disabled :: bool
  downloadAllBtn_disabled :: bool
  processedCount :: nat
  totalCount :: nat
  batchResults :: "reply list"
  workerRunning :: bool
  objectURLs :: "nat list"
  nextURL :: nat
  alerts :: "string list"
  decoded :: "jsfile list"

text \<open>\<open>URL.createObjectURL\<close> returns a fresh URL; \<open>URL.revokeObjectURL\<close> releases one.\<close>

definition createObjectURL :: "app \<Rightarrow> nat \<times> app" where
  "createObjectURL s =
     (nextURL s, s\<lparr>objectURLs := objectURLs s @ [nextURL s], nextURL := Suc (nextURL s)\<rparr>)"

definition revokeObjectURL :: "nat \<Rightarrow> app \<Rightarrow> app" where
  "revokeObjectURL u s = s\<lparr>objectURLs := removeAll u (objectURLs s)\<rparr>"


section \<open>Upload (lines 135-201)\<close>

text \<open>
  Callbacks of asynchronous host operations are run to completion where they are
  registered; the fields they write are not written by the code that follows the
  registration.
\<close>

definition isImageFile :: "jsfile \<Rightarrow> bool" where
  "isImageFile f =
     (file_type f = ''image/jpeg'' \<or> file_type f = ''image/png'' \<or> file_type f = ''image/webp'')"

text \<open>\<open>displayOriginalImage\<close> has no error handlers: a file that cannot be read or
  decoded leaves the state as it is.\<close>

definition displayOriginalImage :: "host \<Rightarrow> jsfile \<Rightarrow> app \<Rightarrow> app" where
  "displayOriginalImage h f s =
     (let s = s\<lparr>decoded := decoded s @ [f]\<rparr>
      in if readAsDataURL h f then
           (case loadImage h f of
              None \<Rightarrow> s
            | Some (w, ht) \<Rightarrow>
                s\<lparr>originalAspectRatio := js_div (js_of_nat w) (js_of_nat ht),
                  widthInput := js_toString (js_of_nat w),
                  heightInput := js_toString (js_of_nat ht)\<rparr>)
         else s)"

definition processFiles :: "host \<Rightarrow> jsfile list \<Rightarrow> app \<Rightarrow> app" where
  "processFiles h files s =
     (let imageFiles = filter isImageFile files
      in if length imageFiles = 0
         then s\<lparr>alerts := alerts s @ [''Please upload JPG, PNG, or WebP images only.'']\<rparr>
         else
           let s = s\<lparr>uploadedFiles := imageFiles, currentFile := Some (hd imageFiles)\<rparr>;
               s = displayOriginalImage h (hd imageFiles) s
           in s\<lparr>totalCount := length imageFiles, processedCount := 0,
                compressBtn_disabled := False\<rparr>)"


section \<open>Aspect ratio lock (lines 228-243)\<close>

definition handleWidthChange :: "app \<Rightarrow> app" where
  "handleWidthChange s =
     (if maintainAspect s \<and> js_gt0 (originalAspectRatio s) then
        let newWidth = js_or (js_parseInt (widthInput s)) (Fin 0)
        in s\<lparr>heightInput := js_toString (Math_round (js_div newWidth (originalAspectRatio s)))\<rparr>
      else s)"

definition handleHeightChange :: "app \<Rightarrow> app" where
  "handleHeightChange s =
     (if maintainAspect s \<and> js_gt0 (originalAspectRatio s) then
        let newHeight = js_or (js_parseInt (heightInput s)) (Fin 0)
        in s\<lparr>widthInput := js_toString (Math_round (js_mul newHeight (originalAspectRatio s)))\<rparr>
      else s)"


section \<open>Compressing one image (lines 292-368)\<close>

text \<open>The quality read from the slider (lines 301 and 543).\<close>

definition quality :: "app \<Rightarrow> jsnum" where
  "quality s = js_div (js_parseInt (qualitySlider s)) (Fin 100)"

text \<open>The output dimensions of \<open>compressImage\<close> (lines 308-321) for an image of the given
  width and height.\<close>

definition dimensions :: "app \<Rightarrow> nat \<times> nat \<Rightarrow> jsnum \<times> jsnum" where
  "dimensions s img =
     (case img of (img_width, img_height) \<Rightarrow>
        if resizeToggle s then
          if resize_pixels s then
            (js_or (js_parseInt (widthInput s)) (js_of_nat img_width),
             js_or (js_parseInt (heightInput s)) (js_of_nat img_height))
          else if resize_percentage s then
            let percentage = js_div (js_parseInt (percentageInput s)) (Fin 100)
            in (Math_round (js_mul (js_of_nat img_width) percentage),
                Math_round (js_mul (js_of_nat img_height) percentage))
          else (js_of_nat img_width, js_of_nat img_height)
        else (js_of_nat img_width, js_of_nat img_height))"

definition compressImage :: "host \<Rightarrow> jsfile \<Rightarrow> app \<Rightarrow> (error + result) \<times> app" where
  "compressImage h f s =
     (let s = s\<lparr>decoded := decoded s @ [f]\<rparr>
      in if \<not> readAsDataURL h f then (Inl FailedToReadFile, s)
         else
           case loadImage h f of
             None \<Rightarrow> (Inl FailedToLoadImage, s)
           | Some img \<Rightarrow>
               let outputFormat = getOutputFormat (formatSelect s) (file_type f);
                   (width, height) = dimensions s img
               in case toBlob h f width height (getMimeType outputFormat) (quality s) of
                    None \<Rightarrow> (Inl FailedToCreateBlob, s)
                  | Some b \<Rightarrow>
                      let (u, s) = createObjectURL s
                      in (Inr \<lparr>r_blob = b, r_url = u, r_size = blob_size b,
                               r_width = width, r_height = height,
                               r_originalSize = file_size f,
                               r_originalWidth = fst img, r_originalHeight = snd img,
                               r_name = getOutputFileName (file_name f) outputFormat,
                               r_type = getMimeType outputFormat\<rparr>, s))"


section \<open>Batch processing (lines 442-592)\<close>

text \<open>
  The worker (lines 452-501). Its message handler takes the request apart and reads the
  file with a \<open>FileReader\<close>, which a worker has. The \<open>onload\<close> callback of the reader
  begins with \<open>new Image()\<close> (line 460) and goes on to \<open>document.createElement\<close>
  (line 464); the global scope of a worker has neither \<open>Image\<close> nor \<open>document\<close>, so
  the callback throws a \<open>ReferenceError\<close> at its first statement and the call of
  \<open>self.postMessage\<close> (lines 485-492) is never reached. No error handler is registered,
  neither in the worker nor on the page (\<open>reader.onerror\<close>, \<open>worker.onerror\<close>). Whatever
  the file, the worker posts no reply; \<open>None\<close> stands for no message.
\<close>

definition worker :: "host \<Rightarrow> request \<Rightarrow> reply option" where
  "worker h e =
     (let f = q_file e
      in if readAsDataURL h f
         then None \<comment> \<open>\<open>reader.onload\<close>: \<open>new Image()\<close> throws\<close>
         else None \<comment> \<open>\<open>reader.onerror\<close> is not set\<close>)"

text \<open>\<open>addBatchResultItem\<close> (lines 598-614): one more object URL, one more row.\<close>

definition addBatchResultItem :: "reply \<Rightarrow> app \<Rightarrow> app" where
  "addBatchResultItem r s =
     (let (u, s) = createObjectURL s
      in s\<lparr>batchResults := batchResults s @ [r]\<rparr>)"

text \<open>\<open>worker.onmessage\<close> (lines 509-538); \<open>workerUrl\<close> is the URL of the worker's code.\<close>

definition onmessage :: "nat \<Rightarrow> reply \<Rightarrow> app \<Rightarrow> app" where
  "onmessage workerUrl r s =
     (let (u, s) = createObjectURL s;
          s = s\<lparr>compressedFiles := compressedFiles s @
                 [\<lparr>c_blob = w_blob r,
                   c_name = getOutputFileName (w_name r)
                      (getOutputFormat (formatSelect s) (getMimeType (Some (blob_type (w_blob r))))),
                   c_url = u, c_size = w_size r, c_originalSize = w_originalSize r\<rparr>]\<rparr>;
          processed = length (compressedFiles s);
          total = length (uploadedFiles s);
          s = s\<lparr>processedCount := processed\<rparr>;
          s = addBatchResultItem r s
      in if processed = total
         then revokeObjectURL workerUrl (s\<lparr>downloadAllBtn_disabled := False, workerRunning := False\<rparr>)
         else s)"

text \<open>
  The body of \<open>uploadedFiles.forEach\<close> (lines 541-591): the request built for one file.
  With percentage resizing the request is posted from \<open>tempImg.onload\<close>; that image has
  no error handler, so a file that does not decode is never posted, and the object URL
  made for it is never revoked.
\<close>

definition dispatch :: "host \<Rightarrow> jsfile \<Rightarrow> app \<Rightarrow> request option \<times> app" where
  "dispatch h f s =
     (let outputFormat = getMimeType (getOutputFormat (formatSelect s) (file_type f));
          post = (\<lambda>resize width height.
                    \<lparr>q_file = f, q_quality = quality s, q_resize = resize, q_width = width,
                     q_height = height, q_outputFormat = outputFormat\<rparr>)
      in if resizeToggle s then
           if resize_pixels s then
             (Some (post True (js_or (js_parseInt (widthInput s)) (Fin 0))
                              (js_or (js_parseInt (heightInput s)) (Fin 0))), s)
           else if resize_percentage s then
             let percentage = js_div (js_parseInt (percentageInput s)) (Fin 100);
                 (u, s) = createObjectURL s;
                 s = s\<lparr>decoded := decoded s @ [f]\<rparr>
             in case loadImage h f of
                  None \<Rightarrow> (None, s)
                | Some (tw, th) \<Rightarrow>
                    (Some (post True (Math_round (js_mul (js_of_nat tw) percentage))
                                     (Math_round (js_mul (js_of_nat th) percentage))),
                     revokeObjectURL u s)
           else (Some (post True (Fin 0) (Fin 0)), s)
         else (Some (post False (Fin 0) (Fin 0)), s))"

text \<open>
  One file of the batch: its request, the worker's run on it, and the handling of a
  reply by \<open>worker.onmessage\<close>, should there be one.
\<close>

definition batchStep :: "host \<Rightarrow> nat \<Rightarrow> jsfile \<Rightarrow> app \<Rightarrow> app" where
  "batchStep h workerUrl f s =
     (case dispatch h f s of
        (None, s) \<Rightarrow> s
      | (Some e, s) \<Rightarrow>
          let s = s\<lparr>decoded := decoded s @ [f]\<rparr>
          in case worker h e of
               None \<Rightarrow> s
             | Some r \<Rightarrow> onmessage workerUrl r s)"

definition processBatchWithWorker :: "host \<Rightarrow> app \<Rightarrow> app" where
  "processBatchWithWorker h s =
     (let s = s\<lparr>processedCount := 0, batchResults := []\<rparr>;
          (workerUrl, s) = createObjectURL s;
          s = s\<lparr>workerRunning := True\<rparr>
      in fold (batchStep h workerUrl) (uploadedFiles s) s)"

text \<open>\<open>compressImages\<close> (lines 263-285).\<close>

definition compressImages :: "host \<Rightarrow> app \<Rightarrow> app" where
  "compressImages h s =
     (if length (uploadedFiles s) = 0 then s
      else
        let s = s\<lparr>compressedFiles := []\<rparr>
        in if length (uploadedFiles s) = 1 then
             (case compressImage h (hd (uploadedFiles s)) s of
                (Inr r, s) \<Rightarrow> s\<lparr>compressedFile := Some (r_blob r), downloadBtn_disabled := False\<rparr>
              | (Inl e, s) \<Rightarrow> s\<lparr>alerts := alerts s @ [''Error compressing image. Please try again.'']\<rparr>)
           else processBatchWithWorker h s)"


section \<open>Reset (lines 669-709)\<close>

text \<open>The statements of \<open>resetApp\<close> in their order: the globals are cleared first, the
  loop that revokes the object URLs runs last, over \<open>compressedFiles\<close> as it is then.
  An object URL is a non-empty string, so the test \<open>if (file.url)\<close> inside the loop
  always holds.\<close>

definition resetApp :: "app \<Rightarrow> app" where
  "resetApp s =
     (let s = s\<lparr>uploadedFiles := [], currentFile := None, compressedFile := None,
                compressedFiles := []\<rparr>;
          s = s\<lparr>batchResults := [], processedCount := 0, totalCount := 0\<rparr>;
          s = s\<lparr>downloadBtn_disabled := True, downloadAllBtn_disabled := True\<rparr>
      in if length (compressedFiles s) > 0
         then fold (\<lambda>file. revokeObjectURL (c_url file)) (compressedFiles s) s
         else s)"


section \<open>Concrete inputs\<close>

text \<open>
  A page before any upload (quality 80, resizing off, format \<open>same\<close>), four files, and
  four hosts. \<open>good_host\<close> decodes every file but the one with no content to a
  1000 by 500 image and encodes every canvas; \<open>host_1001x333\<close> decodes every file to
  a 1001 by 333 image; \<open>zero_byte_host\<close> encodes to an empty blob; \<open>null_blob_host\<close>
  hands \<open>null\<close> to the \<open>toBlob\<close> callback.
\<close>

definition photo_png :: jsfile where
  "photo_png =
     \<lparr>file_name = ''photo.PNG'', file_type = ''image/png'', file_size = 500000, file_data = 1\<rparr>"

definition beach_jpg :: jsfile where
  "beach_jpg =
     \<lparr>file_name = ''beach.jpg'', file_type = ''image/jpeg'', file_size = 300000, file_data = 2\<rparr>"

definition broken_jpg :: jsfile where
  "broken_jpg =
     \<lparr>file_name = ''broken.jpg'', file_type = ''image/jpeg'', file_size = 1000, file_data = 0\<rparr>"

definition anim_gif :: jsfile where
  "anim_gif =
     \<lparr>file_name = ''anim.gif'', file_type = ''image/gif'', file_size = 2000, file_data = 3\<rparr>"

definition page0 :: app where
  "page0 =
     \<lparr>uploadedFiles = [], currentFile = None, compressedFile = None, compressedFiles = [],
      originalAspectRatio = Fin 0, qualitySlider = ''80'', resizeToggle = False,
      resize_pixels = True, resize_percentage = False, widthInput = [], heightInput = [],
      maintainAspect = True, percentageInput = ''100'', formatSelect = ''same'',
      compressBtn_disabled = True, downloadBtn_disabled = True,
      downloadAllBtn_disabled = True, processedCount = 0, totalCount = 0,
      batchResults = [], workerRunning = False, objectURLs = [], nextURL = 0,
      alerts = [], decoded = []\<rparr>"

definition good_host :: host where
  "good_host =
     \<lparr>readAsDataURL = (\<lambda>f. True),
      loadImage = (\<lambda>f. if file_data f = 0 then None else Some (1000, 500)),
      toBlob = (\<lambda>f w h t q. Some \<lparr>blob_size = 150000, blob_type = t\<rparr>)\<rparr>"

definition host_1001x333 :: host where
  "host_1001x333 =
     \<lparr>readAsDataURL = (\<lambda>f. True),
      loadImage = (\<lambda>f. Some (1001, 333)),
      toBlob = (\<lambda>f w h t q. Some \<lparr>blob_size = 150000, blob_type = t\<rparr>)\<rparr>"

definition zero_byte_host :: host where
  "zero_byte_host =
     \<lparr>readAsDataURL = (\<lambda>f. True),
      loadImage = (\<lambda>f. Some (1000, 500)),
      toBlob = (\<lambda>f w h t q. Some \<lparr>blob_size = 0, blob_type = t\<rparr>)\<rparr>"

definition null_blob_host :: host where
  "null_blob_host =
     \<lparr>readAsDataURL = (\<lambda>f. True),
      loadImage = (\<lambda>f. Some (1000, 500)),
      toBlob = (\<lambda>f w h t q. None)\<rparr>"

text \<open>The pages with resizing to 50 and to 33 percent, the page with resizing to 640 by
  480 pixels, and the page with the quality field at 150.\<close>

definition page_percent50 :: app where
  "page_percent50 =
     page0\<lparr>resizeToggle := True, resize_pixels := False, resize_percentage := True,
           percentageInput := ''50''\<rparr>"

definition page_percent33 :: app where
  "page_percent33 =
     page0\<lparr>resizeToggle := True, resize_pixels := False, resize_percentage := True,
           percentageInput := ''33''\<rparr>"

definition page_pixels :: app where
  "page_pixels =
     page0\<lparr>resizeToggle := True, resize_pixels := True, resize_percentage := False,
           widthInput := ''640'', heightInput := ''480''\<rparr>"

definition page_quality150 :: app where
  "page_quality150 = page0\<lparr>qualitySlider := ''150''\<rparr>"

text \<open>The page after the 1000 by 500 image has been shown, after the 1001 by 333 image
  has been shown, after an upload of one file, of a PNG and a JPEG file, and of three
  files of which the second does not decode.\<close>

definition page_1000x500 :: app where
  "page_1000x500 = displayOriginalImage good_host photo_png page0"

definition page_1001x333 :: app where
  "page_1001x333 = displayOriginalImage host_1001x333 photo_png page0"

definition page_one_file :: app where
  "page_one_file = processFiles good_host [photo_png] page0"

definition page_two_files :: app where
  "page_two_files = processFiles good_host [photo_png, beach_jpg] page0"

definition page_three_files :: app where
  "page_three_files = processFiles good_host [photo_png, broken_jpg, beach_jpg] page0"

text \<open>These pages after \<open>compressImages\<close> has run on them.\<close>

definition page_one_done :: app where
  "page_one_done = compressImages good_host page_one_file"

definition page_two_done :: app where
  "page_two_done = compressImages good_host page_two_files"

definition page_three_done :: app where
  "page_three_done = compressImages good_host page_three_files"

text \<open>A file that fails: it cannot be read, it cannot be decoded, or the encoder hands
  over \<open>null\<close> for it.\<close>

definition fails :: "host \<Rightarrow> jsfile \<Rightarrow> bool" where
  "fails h f =
     (\<not> readAsDataURL h f \<or> loadImage h f = None \<or> (\<forall>w ht t q. toBlob h f w ht t q = None))"

text \<open>A number between 0 and 1.\<close>

definition in_unit :: "jsnum \<Rightarrow> bool" where
  "in_unit x = (case x of Fin q \<Rightarrow> 0 \<le> q \<and> q \<le> 1 | _ \<Rightarrow> False)"


section \<open>Properties of the naming functions\<close>

lemma replace_ext_no_dot: "CHR ''.'' \<notin> set s \<Longrightarrow> replace_ext s = s"
  by (induction s) auto

lemma replace_ext_trailing_dot: "s \<noteq> [] \<Longrightarrow> last s = CHR ''.'' \<Longrightarrow> replace_ext s = s"
proof (induction s)
  case Nil
  then show ?case by simp
next
  case (Cons c cs)
  show ?case
  proof (cases "cs = []")
    case True
    then show ?thesis by simp
  next
    case False
    with Cons.prems have l: "last cs = CHR ''.''" by simp
    with False have "CHR ''.'' \<in> set cs" using last_in_set by metis
    then have "\<not> ext_match (c # cs)" by (auto simp: list_all_iff)
    with Cons.IH False l show ?thesis by simp
  qed
qed

lemma replace_ext_split:
  "e \<noteq> [] \<Longrightarrow> CHR ''.'' \<notin> set e \<Longrightarrow> replace_ext (p @ CHR ''.'' # e) = p"
proof (induction p)
  case Nil
  then show ?case by (simp add: list_all_iff)
next
  case (Cons c p)
  have "\<not> ext_match (c # p @ CHR ''.'' # e)" by (simp add: list_all_iff)
  with Cons show ?case by simp
qed

lemma last_dot_split:
  "CHR ''.'' \<in> set s \<Longrightarrow> \<exists>p e. s = p @ CHR ''.'' # e \<and> CHR ''.'' \<notin> set e"
  by (metis split_list_last)

lemma replace_ext_spec: "replace_ext name = base_name_spec name"
proof (cases "CHR ''.'' \<in> set name \<and> last name \<noteq> CHR ''.''")
  case True
  then obtain p e where s: "name = p @ CHR ''.'' # e" and e: "CHR ''.'' \<notin> set e"
    using last_dot_split by blast
  from True s have ne: "e \<noteq> []" by auto
  have "dropWhile (\<lambda>c. c \<noteq> CHR ''.'') (rev e @ CHR ''.'' # rev p) = CHR ''.'' # rev p"
    using e by (subst dropWhile_append3) auto
  then have "base_name_spec name = p" using True s by (simp add: base_name_spec_def)
  with replace_ext_split [OF ne e] s show ?thesis by simp
next
  case False
  then have b: "base_name_spec name = name" unfolding base_name_spec_def by (simp only: if_False)
  show ?thesis
  proof (cases "CHR ''.'' \<in> set name")
    case True
    with False have "name \<noteq> []" "last name = CHR ''.''" by auto
    with b show ?thesis by (simp add: replace_ext_trailing_dot)
  next
    case False
    with b show ?thesis by (simp add: replace_ext_no_dot)
  qed
qed

text \<open>
  Claim C7. The suggested file name is the original name with its extension removed
  (everything up to the last dot, when a non-empty extension follows it), then
  \<open>-compressed.\<close>, then the output format passed in; nothing of the original extension
  is kept. For \<open>photo.PNG\<close> and format \<open>jpeg\<close> the name is \<open>photo-compressed.jpeg\<close>.
\<close>

theorem getOutputFileName_spec:
  "getOutputFileName name (Some fmt) = base_name_spec name @ ''-compressed.'' @ fmt
   \<and> getOutputFileName ''photo.PNG'' (Some ''jpeg'') = ''photo-compressed.jpeg''"
  by (simp add: getOutputFileName_def template_str_def replace_ext_spec [symmetric])

theorem getOutputFileName_spec_witness:
  "base_name_spec ''archive.tar.gz'' = ''archive.tar''
   \<and> getOutputFileName ''archive.tar.gz'' (Some ''webp'') = ''archive.tar-compressed.webp''"
  using getOutputFileName_spec [of "''archive.tar.gz''" "''webp''"]
  by (simp add: base_name_spec_def)

text \<open>
  Claim C10. Every format other than \<open>jpeg\<close>, \<open>jpg\<close>, \<open>png\<close> and \<open>webp\<close> (an unknown
  string, or \<open>undefined\<close>) is mapped to \<open>image/jpeg\<close>; the function returns one of the
  three supported MIME types on every input.
\<close>

theorem getMimeType_default:
  "(format \<notin> {Some ''jpeg'', Some ''jpg'', Some ''png'', Some ''webp''}
      \<longrightarrow> getMimeType format = ''image/jpeg'')
   \<and> getMimeType format \<in> {''image/jpeg'', ''image/png'', ''image/webp''}"
  by (simp add: getMimeType_def)

theorem getMimeType_default_witness:
  "Some ''gif'' \<notin> {Some ''jpeg'', Some ''jpg'', Some ''png'', Some ''webp''}
   \<and> getMimeType (Some ''gif'') = ''image/jpeg''"
  using getMimeType_default [of "Some ''gif''"] by simp


section \<open>Numeric facts of the examples\<close>

lemma num_1000: "js_of_nat 1000 = Fin 1000"
proof -
  have "fl 1000 = Fin 1000" by code_simp
  then show ?thesis by (simp add: js_of_nat_def)
qed

lemma num_500: "js_of_nat 500 = Fin 500"
proof -
  have "fl 500 = Fin 500" by code_simp
  then show ?thesis by (simp add: js_of_nat_def)
qed

lemma num_percent50_width:
  "Math_round (js_mul (Fin 1000) (js_div (js_parseInt ''50'') (Fin 100))) = Fin 500"
  by code_simp

lemma num_percent50_height:
  "Math_round (js_mul (Fin 500) (js_div (js_parseInt ''50'') (Fin 100))) = Fin 250"
  by code_simp

lemma num_quality150: "js_div (js_parseInt ''150'') (Fin 100) = Fin (3 / 2)"
  by code_simp

lemma num_parse80: "js_parseInt ''80'' = Fin 80"
  by code_simp

lemma num_parse640: "js_parseInt ''640'' = Fin 640"
  by code_simp

lemma num_parse480: "js_parseInt ''480'' = Fin 480"
  by code_simp

lemma num_ratio: "js_div (js_of_nat 1000) (js_of_nat 500) = Fin 2"
proof -
  have "js_div (Fin 1000) (Fin 500) = Fin 2" by code_simp
  then show ?thesis by (simp only: num_1000 num_500)
qed

lemma num_1001: "js_of_nat 1001 = Fin 1001"
proof -
  have "fl 1001 = Fin 1001" by code_simp
  then show ?thesis by (simp add: js_of_nat_def)
qed

lemma num_333: "js_of_nat 333 = Fin 333"
proof -
  have "fl 333 = Fin 333" by code_simp
  then show ?thesis by (simp add: js_of_nat_def)
qed

text \<open>33 percent of 1001 and of 333: the products 330.33 and 109.89 as binary64 values,
  and their roundings.\<close>

lemma num_percent33_width:
  "js_mul (Fin 1001) (js_div (js_parseInt ''33'') (Fin 100)) =
     Fin (2905613408025969 / 8796093022208)"
  by code_simp

lemma num_percent33_height:
  "js_mul (Fin 333) (js_div (js_parseInt ''33'') (Fin 100)) =
     Fin (7732821297683497 / 70368744177664)"
  by code_simp

lemma num_round_330: "\<lfloor>(2905613408025969 / 8796093022208 :: rat) + 1 / 2\<rfloor> = 330"
  by code_simp

lemma num_round_110: "\<lfloor>(7732821297683497 / 70368744177664 :: rat) + 1 / 2\<rfloor> = 110"
  by code_simp

text \<open>The aspect ratio of a 1001 by 333 image, 500 over it (166.33), 33 times it (99.198),
  and 333 over 2 (166.5).\<close>

lemma num_ratio_1001: "js_div (js_of_nat 1001) (js_of_nat 333) = Fin (6768923764261061 / 2251799813685248)"
proof -
  have "js_div (Fin 1001) (Fin 333) = Fin (6768923764261061 / 2251799813685248)" by code_simp
  then show ?thesis by (simp only: num_1001 num_333)
qed

lemma num_500_over_ratio:
  "fl (500 / (6768923764261061 / 2251799813685248)) = Fin (365771600448959 / 2199023255552)"
  by code_simp

lemma num_33_times_ratio:
  "fl (33 * (6768923764261061 / 2251799813685248)) = Fin (6980452631894219 / 70368744177664)"
  by code_simp

lemma num_333_over_2: "fl (333 / 2) = Fin (333 / 2)"
  by code_simp

lemma num_round_166: "\<lfloor>(365771600448959 / 2199023255552 :: rat) + 1 / 2\<rfloor> = 166"
  by code_simp

lemma num_round_99: "\<lfloor>(6980452631894219 / 70368744177664 :: rat) + 1 / 2\<rfloor> = 99"
  by code_simp

lemma num_round_167: "\<lfloor>(333 / 2 :: rat) + 1 / 2\<rfloor> = 167"
  by code_simp

lemma num_round_0: "\<lfloor>(0 :: rat) + 1 / 2\<rfloor> = 0"
  by code_simp

lemma num_parse_fields:
  "js_parseInt ''500'' = Fin 500" "js_parseInt ''33'' = Fin 33" "js_parseInt ''333'' = Fin 333"
  "js_parseInt ''abc'' = NaN"
  by code_simp+

lemma num_strings:
  "js_toString (Fin 166) = ''166''" "js_toString (Fin 99) = ''99''"
  "js_toString (Fin 167) = ''167''"
  by code_simp+

lemma num_width400:
  "js_toString (Math_round (js_div (js_or (js_parseInt ''400'') (Fin 0)) (Fin 2))) = ''200''"
  by code_simp

lemma num_height100:
  "js_toString (Math_round (js_mul (js_or (js_parseInt ''100'') (Fin 0)) (Fin 2))) = ''200''"
  by code_simp


section \<open>Rounding stays within the unit interval\<close>

lemma bit_length_nonneg: "0 \<le> bit_length n"
  by (induction n rule: bit_length.induct) (subst bit_length.simps, simp)

lemma bit_length_pos: "1 \<le> n \<Longrightarrow> 1 \<le> bit_length n"
  using bit_length_nonneg [of "n div 2"] by (subst bit_length.simps) simp

lemma bit_length_le: "n \<le> 2 ^ k \<Longrightarrow> bit_length n \<le> int k + 1"
proof (induction k arbitrary: n)
  case 0
  then have "n div 2 \<le> 0" by simp
  then have "bit_length (n div 2) = 0" by (subst bit_length.simps) simp
  then show ?case by (subst bit_length.simps) simp
next
  case (Suc k)
  then have "n div 2 \<le> 2 ^ k" by simp
  from Suc.IH [OF this] show ?case by (subst bit_length.simps) simp
qed

lemma flog2_le_0:
  assumes "0 < q" and "q \<le> 1"
  shows "flog2 q \<le> 0"
proof (cases "q = 1")
  case True
  have "bit_length 1 = 1" by (subst bit_length.simps, subst bit_length.simps) simp
  with True show ?thesis by (simp add: flog2_def)
next
  case False
  with assms have "q < 1" by simp
  with assms have "1 \<le> 1 / q" by simp
  then have "1 \<le> \<lfloor>1 / q\<rfloor>" by linarith
  from bit_length_pos [OF this] \<open>q < 1\<close> show ?thesis
    by (simp add: flog2_def Let_def)
qed

lemma round_half_even_nonneg: "0 \<le> x \<Longrightarrow> 0 \<le> round_half_even x"
proof -
  assume "0 \<le> x"
  then have "0 \<le> \<lfloor>x\<rfloor>" by simp
  then show ?thesis by (simp add: round_half_even_def Let_def)
qed

lemma round_half_even_le: "x \<le> of_int N \<Longrightarrow> round_half_even x \<le> N"
proof -
  assume a: "x \<le> of_int N"
  show ?thesis
  proof (cases "x = of_int N")
    case True
    then show ?thesis by (simp add: round_half_even_def Let_def)
  next
    case False
    with a have "x < of_int N" by simp
    then have "\<lfloor>x\<rfloor> < N" by (simp add: floor_less_iff)
    then have "\<lfloor>x\<rfloor> + 1 \<le> N" by simp
    then show ?thesis by (simp add: round_half_even_def Let_def)
  qed
qed

lemma fl_unit_interval:
  assumes "0 \<le> q" and "q \<le> 1"
  shows "in_unit (fl q)"
proof (cases "q = 0")
  case True
  then show ?thesis by (simp add: fl_def in_unit_def)
next
  case False
  with assms have pos: "0 < q" by simp
  define e where "e = max (flog2 \<bar>q\<bar> - 52) (- 1074)"
  define k where "k = nat (- e)"
  define m where "m = round_half_even (q / pow2 e)"
  have "flog2 \<bar>q\<bar> \<le> 0" using flog2_le_0 [OF pos assms(2)] pos by simp
  then have e: "e < 0" by (simp add: e_def)
  then have p: "pow2 e = 1 / 2 ^ k" by (simp add: pow2_def k_def)
  have ek: "e = - int k" using e by (simp add: k_def)
  have x: "q / pow2 e = q * 2 ^ k" by (simp add: p)
  have "q * 2 ^ k \<le> 1 * 2 ^ k" using assms(2) by (intro mult_right_mono) simp_all
  then have "q / pow2 e \<le> of_int (2 ^ k)" by (simp add: x)
  then have mle: "m \<le> 2 ^ k" unfolding m_def by (rule round_half_even_le)
  have "0 \<le> q / pow2 e" using pos by (simp add: x)
  then have m0: "0 \<le> m" unfolding m_def by (rule round_half_even_nonneg)
  have "bit_length \<bar>m\<bar> \<le> int k + 1" using bit_length_le [of "\<bar>m\<bar>" k] mle m0 by simp
  then have no: "\<not> 1024 < bit_length \<bar>m\<bar> + e" by (simp add: ek)
  have f: "fl q = Fin (of_int m * pow2 e)"
    using False no by (simp add: fl_def Let_def e_def [symmetric] m_def [symmetric])
  have lo: "0 \<le> (of_int m :: rat) * pow2 e" using m0 by (simp add: p)
  have "(of_int m :: rat) \<le> of_int (2 ^ k)" using mle by (simp only: of_int_le_iff)
  then have "(of_int m :: rat) \<le> 2 ^ k" by simp
  then have hi: "(of_int m :: rat) * pow2 e \<le> 1" by (simp add: p divide_le_eq)
  from f lo hi show ?thesis by (simp add: in_unit_def)
qed

lemma percent_in_unit:
  assumes "n \<le> 100"
  shows "in_unit (js_div (Fin (of_nat n)) (Fin 100))"
proof -
  have "(of_nat n :: rat) \<le> of_nat 100" using assms by (simp only: of_nat_le_iff)
  then have "(of_nat n :: rat) / 100 \<le> 1" by simp
  moreover have "0 \<le> (of_nat n :: rat) / 100" by simp
  ultimately have "in_unit (fl (of_nat n / 100))" by (intro fl_unit_interval)
  then show ?thesis by simp
qed


section \<open>The single image pipeline\<close>

lemma dimensions_decoded [simp]: "dimensions (s\<lparr>decoded := d\<rparr>) = dimensions s"
  by (simp add: dimensions_def fun_eq_iff)

lemma quality_decoded [simp]: "quality (s\<lparr>decoded := d\<rparr>) = quality s"
  by (simp add: quality_def)

lemma compressImage_eq:
  "compressImage h f s =
     (if \<not> readAsDataURL h f then (Inl FailedToReadFile, s\<lparr>decoded := decoded s @ [f]\<rparr>)
      else case loadImage h f of
        None \<Rightarrow> (Inl FailedToLoadImage, s\<lparr>decoded := decoded s @ [f]\<rparr>)
      | Some img \<Rightarrow>
          (case toBlob h f (fst (dimensions s img)) (snd (dimensions s img))
                  (getMimeType (getOutputFormat (formatSelect s) (file_type f))) (quality s) of
             None \<Rightarrow> (Inl FailedToCreateBlob, s\<lparr>decoded := decoded s @ [f]\<rparr>)
           | Some b \<Rightarrow>
               (Inr \<lparr>r_blob = b, r_url = nextURL s, r_size = blob_size b,
                     r_width = fst (dimensions s img), r_height = snd (dimensions s img),
                     r_originalSize = file_size f,
                     r_originalWidth = fst img, r_originalHeight = snd img,
                     r_name = getOutputFileName (file_name f)
                                (getOutputFormat (formatSelect s) (file_type f)),
                     r_type = getMimeType (getOutputFormat (formatSelect s) (file_type f))\<rparr>,
                s\<lparr>decoded := decoded s @ [f], objectURLs := objectURLs s @ [nextURL s],
                  nextURL := Suc (nextURL s)\<rparr>)))"
  by (simp add: compressImage_def Let_def createObjectURL_def split: option.splits prod.splits)

lemma compressImage_result:
  assumes "compressImage h f s = (Inr r, s')"
  shows "loadImage h f = Some (r_originalWidth r, r_originalHeight r)"
    and "(r_width r, r_height r) = dimensions s (r_originalWidth r, r_originalHeight r)"
    and "toBlob h f (r_width r) (r_height r) (r_type r) (quality s) = Some (r_blob r)"
  using assms by (auto simp: compressImage_eq split: if_splits option.splits)

lemma compressImage_good_host:
  "compressImage good_host photo_png s =
     (Inr (projr (fst (compressImage good_host photo_png s))),
      snd (compressImage good_host photo_png s))"
  by (simp add: compressImage_eq good_host_def photo_png_def)

lemma good_host_photo: "loadImage good_host photo_png = Some (1000, 500)"
  by (simp add: good_host_def photo_png_def)

lemma compressImage_host_1001x333:
  "compressImage host_1001x333 photo_png s =
     (Inr (projr (fst (compressImage host_1001x333 photo_png s))),
      snd (compressImage host_1001x333 photo_png s))"
  by (simp add: compressImage_eq host_1001x333_def)

text \<open>
  Claim C1. When \<open>compressImage\<close> produces a result, its dimensions are: the source
  dimensions with resizing off; the parsed width and height fields with pixel resizing
  and positive values in both fields; with percentage resizing, the source dimension
  times \<open>p\<close> rounded to the nearest integer, a half rounded up (for a product \<open>x\<close> the
  integer \<open>\<lfloor>x + 1/2\<rfloor>\<close>), where \<open>p\<close> is the parsed percentage over 100.
\<close>

theorem compressImage_dimensions:
  assumes "compressImage h f s = (Inr r, s')"
  shows "(\<not> resizeToggle s \<longrightarrow>
            r_width r = js_of_nat (r_originalWidth r) \<and> r_height r = js_of_nat (r_originalHeight r))
       \<and> (resizeToggle s \<and> resize_pixels s \<and> js_parseInt (widthInput s) = Fin W
            \<and> js_parseInt (heightInput s) = Fin H \<and> 0 < W \<and> 0 < H \<longrightarrow>
            r_width r = Fin W \<and> r_height r = Fin H)
       \<and> (resizeToggle s \<and> \<not> resize_pixels s \<and> resize_percentage s
            \<and> p = js_div (js_parseInt (percentageInput s)) (Fin 100) \<longrightarrow>
            r_width r = Math_round (js_mul (js_of_nat (r_originalWidth r)) p)
            \<and> r_height r = Math_round (js_mul (js_of_nat (r_originalHeight r)) p))
       \<and> (resizeToggle s \<and> \<not> resize_pixels s \<and> resize_percentage s
            \<and> p = js_div (js_parseInt (percentageInput s)) (Fin 100)
            \<and> js_mul (js_of_nat (r_originalWidth r)) p = Fin x
            \<and> js_mul (js_of_nat (r_originalHeight r)) p = Fin y \<longrightarrow>
            r_width r = Fin (of_int \<lfloor>x + 1 / 2\<rfloor>)
            \<and> r_height r = Fin (of_int \<lfloor>y + 1 / 2\<rfloor>))"
  using compressImage_result(2) [OF assms]
  by (auto simp: dimensions_def js_or_def js_truthy_def Let_def Math_round_def)

theorem compressImage_dimensions_witness:
  "compressImage good_host photo_png page0 =
     (Inr (projr (fst (compressImage good_host photo_png page0))),
      snd (compressImage good_host photo_png page0))
   \<and> r_width (projr (fst (compressImage good_host photo_png page0))) = Fin 1000
   \<and> r_height (projr (fst (compressImage good_host photo_png page0))) = Fin 500
   \<and> r_width (projr (fst (compressImage good_host photo_png page_pixels))) = Fin 640
   \<and> r_height (projr (fst (compressImage good_host photo_png page_pixels))) = Fin 480
   \<and> r_width (projr (fst (compressImage good_host photo_png page_percent50))) = Fin 500
   \<and> r_height (projr (fst (compressImage good_host photo_png page_percent50))) = Fin 250
   \<and> js_mul (js_of_nat 1001) (js_div (js_parseInt (percentageInput page_percent33)) (Fin 100)) =
       Fin (2905613408025969 / 8796093022208)
   \<and> js_mul (js_of_nat 333) (js_div (js_parseInt (percentageInput page_percent33)) (Fin 100)) =
       Fin (7732821297683497 / 70368744177664)
   \<and> r_width (projr (fst (compressImage host_1001x333 photo_png page_percent33))) = Fin 330
   \<and> r_height (projr (fst (compressImage host_1001x333 photo_png page_percent33))) = Fin 110"
proof -
  let ?r = "\<lambda>s. projr (fst (compressImage good_host photo_png s))"
  let ?q = "projr (fst (compressImage host_1001x333 photo_png page_percent33))"
  let ?p = "js_div (js_parseInt ''50'') (Fin 100)"
  let ?p33 = "js_div (js_parseInt ''33'') (Fin 100)"
  note c = compressImage_good_host
  note d = compressImage_host_1001x333 [of page_percent33]
  have o: "r_originalWidth (?r s) = 1000" "r_originalHeight (?r s) = 500" for s
    using compressImage_result(1) [OF c [of s]] by (simp_all add: good_host_photo)
  have o33: "r_originalWidth ?q = 1001" "r_originalHeight ?q = 333"
    using compressImage_result(1) [OF d] by (simp_all add: host_1001x333_def)
  have off: "r_width (?r page0) = Fin 1000 \<and> r_height (?r page0) = Fin 500"
    using compressImage_dimensions [OF c [of page0]] o [of page0]
    by (simp add: page0_def num_1000 num_500)
  have w: "js_parseInt (widthInput page_pixels) = Fin 640"
          "js_parseInt (heightInput page_pixels) = Fin 480"
    by (simp_all add: page_pixels_def num_parse640 num_parse480)
  have px: "r_width (?r page_pixels) = Fin 640 \<and> r_height (?r page_pixels) = Fin 480"
    using compressImage_dimensions [OF c [of page_pixels], of 640 480] w
    by (simp add: page_pixels_def)
  have "r_width (?r page_percent50) =
          Math_round (js_mul (js_of_nat (r_originalWidth (?r page_percent50))) ?p)
      \<and> r_height (?r page_percent50) =
          Math_round (js_mul (js_of_nat (r_originalHeight (?r page_percent50))) ?p)"
    using compressImage_dimensions [OF c [of page_percent50], of _ _ ?p]
    by (simp add: page_percent50_def page0_def)
  then have pc: "r_width (?r page_percent50) = Fin 500 \<and> r_height (?r page_percent50) = Fin 250"
    by (simp add: o num_1000 num_500 num_percent50_width num_percent50_height)
  have s33: "resizeToggle page_percent33" "\<not> resize_pixels page_percent33"
    "resize_percentage page_percent33" "percentageInput page_percent33 = ''33''"
    by (simp_all add: page_percent33_def page0_def)
  let ?pp = "js_div (js_parseInt (percentageInput page_percent33)) (Fin 100)"
  have x: "js_mul (js_of_nat (r_originalWidth ?q)) ?pp = Fin (2905613408025969 / 8796093022208)"
    by (simp only: o33 s33 num_1001 num_percent33_width)
  have y: "js_mul (js_of_nat (r_originalHeight ?q)) ?pp = Fin (7732821297683497 / 70368744177664)"
    by (simp only: o33 s33 num_333 num_percent33_height)
  have "r_width ?q = Fin (of_int \<lfloor>(2905613408025969 / 8796093022208 :: rat) + 1 / 2\<rfloor>)
      \<and> r_height ?q = Fin (of_int \<lfloor>(7732821297683497 / 70368744177664 :: rat) + 1 / 2\<rfloor>)"
    using compressImage_dimensions [OF d, of _ _ ?pp "2905613408025969 / 8796093022208"
            "7732821297683497 / 70368744177664"] s33(1-3) x y
    by blast
  then have p33: "r_width ?q = Fin 330 \<and> r_height ?q = Fin 110"
    by (simp only: num_round_330 num_round_110 of_int_numeral)
  have xy: "js_mul (js_of_nat 1001) ?pp = Fin (2905613408025969 / 8796093022208)"
           "js_mul (js_of_nat 333) ?pp = Fin (7732821297683497 / 70368744177664)"
    using x y by (simp_all only: o33)
  from off px pc p33 xy c [of page0] show ?thesis by blast
qed

text \<open>
  Claim C5, as amended. On the single-file path, for a file that is read and decoded:
  when the encoder hands over \<open>null\<close> the promise is rejected with the failed-blob error
  and no result is built (the state gains no object URL); when it hands over a blob,
  of any size, the promise resolves with a result that holds this blob.
\<close>

theorem compressImage_null_blob:
  assumes "readAsDataURL h f" and "loadImage h f = Some img"
  shows "(toBlob h f (fst (dimensions s img)) (snd (dimensions s img))
            (getMimeType (getOutputFormat (formatSelect s) (file_type f))) (quality s) = None
          \<longrightarrow> compressImage h f s = (Inl FailedToCreateBlob, s\<lparr>decoded := decoded s @ [f]\<rparr>))
       \<and> (toBlob h f (fst (dimensions s img)) (snd (dimensions s img))
            (getMimeType (getOutputFormat (formatSelect s) (file_type f))) (quality s) = Some b
          \<longrightarrow> map_sum id r_blob (fst (compressImage h f s)) = Inr b)"
  using assms by (simp add: compressImage_eq)

theorem compressImage_null_blob_witness:
  "compressImage null_blob_host photo_png page0 =
     (Inl FailedToCreateBlob, page0\<lparr>decoded := [photo_png]\<rparr>)
   \<and> map_sum id r_blob (fst (compressImage good_host photo_png page0)) =
       Inr \<lparr>blob_size = 150000, blob_type = ''image/png''\<rparr>"
proof -
  have a: "readAsDataURL null_blob_host photo_png"
          "loadImage null_blob_host photo_png = Some (1000, 500)"
    by (simp_all add: null_blob_host_def)
  have b: "readAsDataURL good_host photo_png" by (simp add: good_host_def)
  have t: "getMimeType (getOutputFormat (formatSelect page0) (file_type photo_png)) = ''image/png''"
    by (simp add: page0_def photo_png_def getOutputFormat_def split_slash_1_def getMimeType_def)
  show ?thesis
    using compressImage_null_blob [OF a, of page0]
          compressImage_null_blob [OF b good_host_photo, of page0 "\<lparr>blob_size = 150000, blob_type = ''image/png''\<rparr>"]
    by (simp add: t) (simp add: null_blob_host_def good_host_def page0_def)
qed

theorem zero_byte_blob_counterexample:
  "map_sum id r_size (fst (compressImage zero_byte_host photo_png page0)) = Inr 0"
  by (simp add: compressImage_eq zero_byte_host_def)

text \<open>
  Claim C8, as amended. The quality is \<open>parseInt\<close> of the slider value over 100, for
  every slider value, with no clamping and no rejection; it is the quality handed to the
  encoder on the single-file path and the quality of the request on the batch path. For a
  slider value that parses to an integer from 0 to 100 the quality lies between 0 and 1.
\<close>

theorem quality_unvalidated:
  "quality s = js_div (js_parseInt (qualitySlider s)) (Fin 100)
   \<and> (js_parseInt (qualitySlider s) = Fin (of_nat n) \<and> n \<le> 100 \<longrightarrow> in_unit (quality s))
   \<and> (compressImage h f s = (Inr r, s') \<longrightarrow>
         toBlob h f (r_width r) (r_height r) (r_type r) (quality s) = Some (r_blob r))
   \<and> (dispatch h f s = (Some e, s'') \<longrightarrow> q_quality e = quality s)"
proof (intro conjI impI)
  show "quality s = js_div (js_parseInt (qualitySlider s)) (Fin 100)"
    by (simp add: quality_def)
  show "in_unit (quality s)" if "js_parseInt (qualitySlider s) = Fin (of_nat n) \<and> n \<le> 100"
    using that percent_in_unit [of n] by (simp add: quality_def)
  show "toBlob h f (r_width r) (r_height r) (r_type r) (quality s) = Some (r_blob r)"
    if "compressImage h f s = (Inr r, s')"
    using compressImage_result(3) [OF that] .
  show "q_quality e = quality s" if "dispatch h f s = (Some e, s'')"
    using that
    by (auto simp: dispatch_def Let_def createObjectURL_def quality_def
             split: if_splits option.splits prod.splits)
qed

theorem quality_unvalidated_witness:
  "js_parseInt (qualitySlider page0) = Fin (of_nat 80) \<and> (80 :: nat) \<le> 100
   \<and> in_unit (quality page0)
   \<and> toBlob good_host photo_png
        (r_width (projr (fst (compressImage good_host photo_png page0))))
        (r_height (projr (fst (compressImage good_host photo_png page0))))
        (r_type (projr (fst (compressImage good_host photo_png page0)))) (quality page0) =
      Some (r_blob (projr (fst (compressImage good_host photo_png page0))))
   \<and> dispatch good_host photo_png page0 =
        (Some (the (fst (dispatch good_host photo_png page0))), page0)
   \<and> q_quality (the (fst (dispatch good_host photo_png page0))) = quality page0"
proof -
  have p: "js_parseInt (qualitySlider page0) = Fin (of_nat 80)"
    by (simp add: page0_def num_parse80)
  have d: "dispatch good_host photo_png page0 =
             (Some (the (fst (dispatch good_host photo_png page0))), page0)"
    by (simp add: dispatch_def page0_def Let_def)
  have l: "(80 :: nat) \<le> 100" by simp
  note c = compressImage_good_host [of page0]
  show ?thesis
    using quality_unvalidated [of page0 80 good_host photo_png
            "projr (fst (compressImage good_host photo_png page0))"
            "snd (compressImage good_host photo_png page0)"
            "the (fst (dispatch good_host photo_png page0))" page0]
          p d c l
    by blast
qed

theorem quality_150_counterexample:
  "quality page_quality150 = Fin (3 / 2)
   \<and> \<not> isl (fst (compressImage good_host photo_png page_quality150))"
  by (simp add: quality_def page_quality150_def page0_def num_quality150 compressImage_eq
        good_host_def photo_png_def)


section \<open>Aspect ratio lock\<close>

text \<open>
  Claim C3. With the aspect ratio box checked and a known (positive) original ratio,
  a change of the width sets the height field to \<open>Math.round(width / ratio)\<close>, and a
  change of the height sets the width field to \<open>Math.round(height * ratio)\<close>; the new
  value depends on the changed field and the ratio alone, and nothing else is written.
  Spelled out: for a width field that parses to \<open>w\<close> and a ratio \<open>a\<close>, with \<open>x\<close> the
  binary64 quotient of \<open>w\<close> by \<open>a\<close>, the height field becomes the integer
  \<open>\<lfloor>x + 1/2\<rfloor>\<close> (the nearest integer, a half rounded up), and likewise for the
  product of a parsed height and the ratio; a field that does not parse counts as 0.
\<close>

theorem aspect_ratio_lock:
  assumes "maintainAspect s" and "js_gt0 (originalAspectRatio s)"
  shows "handleWidthChange s =
           s\<lparr>heightInput := js_toString (Math_round
               (js_div (js_or (js_parseInt (widthInput s)) (Fin 0)) (originalAspectRatio s)))\<rparr>
       \<and> handleHeightChange s =
           s\<lparr>widthInput := js_toString (Math_round
               (js_mul (js_or (js_parseInt (heightInput s)) (Fin 0)) (originalAspectRatio s)))\<rparr>
       \<and> (originalAspectRatio s = Fin a \<and> js_parseInt (widthInput s) = Fin w
            \<and> fl (w / a) = Fin x \<longrightarrow>
            heightInput (handleWidthChange s) = js_toString (Fin (of_int \<lfloor>x + 1 / 2\<rfloor>)))
       \<and> (originalAspectRatio s = Fin a \<and> js_parseInt (heightInput s) = Fin v
            \<and> fl (v * a) = Fin y \<longrightarrow>
            widthInput (handleHeightChange s) = js_toString (Fin (of_int \<lfloor>y + 1 / 2\<rfloor>)))
       \<and> (originalAspectRatio s = Fin a \<and> js_parseInt (widthInput s) = NaN \<longrightarrow>
            heightInput (handleWidthChange s) = ''0'')
       \<and> (originalAspectRatio s = Fin a \<and> js_parseInt (heightInput s) = NaN \<longrightarrow>
            widthInput (handleHeightChange s) = ''0'')"
proof (intro conjI impI)
  show "handleWidthChange s =
          s\<lparr>heightInput := js_toString (Math_round
              (js_div (js_or (js_parseInt (widthInput s)) (Fin 0)) (originalAspectRatio s)))\<rparr>"
    using assms by (simp add: handleWidthChange_def)
  show "handleHeightChange s =
          s\<lparr>widthInput := js_toString (Math_round
              (js_mul (js_or (js_parseInt (heightInput s)) (Fin 0)) (originalAspectRatio s)))\<rparr>"
    using assms by (simp add: handleHeightChange_def)
  show "heightInput (handleWidthChange s) = js_toString (Fin (of_int \<lfloor>x + 1 / 2\<rfloor>))"
    if "originalAspectRatio s = Fin a \<and> js_parseInt (widthInput s) = Fin w \<and> fl (w / a) = Fin x"
    using that assms
    by (auto simp: handleWidthChange_def js_gt0_def js_or_def js_truthy_def Math_round_def)
  show "widthInput (handleHeightChange s) = js_toString (Fin (of_int \<lfloor>y + 1 / 2\<rfloor>))"
    if "originalAspectRatio s = Fin a \<and> js_parseInt (heightInput s) = Fin v \<and> fl (v * a) = Fin y"
    using that assms
    by (auto simp: handleHeightChange_def js_gt0_def js_or_def js_truthy_def Math_round_def)
  show "heightInput (handleWidthChange s) = ''0''"
    if "originalAspectRatio s = Fin a \<and> js_parseInt (widthInput s) = NaN"
    using that assms
    by (simp add: handleWidthChange_def js_gt0_def js_or_def js_truthy_def Math_round_def
          fl_def js_toString_def num_round_0 [simplified])
  show "widthInput (handleHeightChange s) = ''0''"
    if "originalAspectRatio s = Fin a \<and> js_parseInt (heightInput s) = NaN"
    using that assms
    by (simp add: handleHeightChange_def js_gt0_def js_or_def js_truthy_def Math_round_def
          fl_def js_toString_def num_round_0 [simplified])
qed

lemma page_1000x500_ratio: "originalAspectRatio page_1000x500 = Fin 2"
  by (simp add: page_1000x500_def displayOriginalImage_def good_host_def photo_png_def num_ratio)

lemma page_1000x500_maintain: "maintainAspect page_1000x500"
  by (simp add: page_1000x500_def displayOriginalImage_def good_host_def photo_png_def page0_def)

lemma page_1001x333_ratio:
  "originalAspectRatio page_1001x333 = Fin (6768923764261061 / 2251799813685248)"
  by (simp add: page_1001x333_def displayOriginalImage_def host_1001x333_def num_ratio_1001)

lemma page_1001x333_maintain: "maintainAspect page_1001x333"
  by (simp add: page_1001x333_def displayOriginalImage_def host_1001x333_def page0_def)

theorem aspect_ratio_lock_witness:
  "maintainAspect page_1000x500 \<and> originalAspectRatio page_1000x500 = Fin 2
   \<and> heightInput (handleWidthChange (page_1000x500\<lparr>widthInput := ''400''\<rparr>)) = ''200''
   \<and> widthInput (handleHeightChange (page_1000x500\<lparr>heightInput := ''100''\<rparr>)) = ''200''
   \<and> heightInput (handleWidthChange (page_1000x500\<lparr>widthInput := ''333''\<rparr>)) = ''167''
   \<and> heightInput (handleWidthChange (page_1000x500\<lparr>widthInput := ''abc''\<rparr>)) = ''0''
   \<and> widthInput (handleHeightChange (page_1000x500\<lparr>heightInput := ''abc''\<rparr>)) = ''0''
   \<and> originalAspectRatio page_1001x333 = Fin (6768923764261061 / 2251799813685248)
   \<and> heightInput (handleWidthChange (page_1001x333\<lparr>widthInput := ''500''\<rparr>)) = ''166''
   \<and> widthInput (handleHeightChange (page_1001x333\<lparr>heightInput := ''33''\<rparr>)) = ''99''"
proof -
  let ?A = "6768923764261061 / 2251799813685248 :: rat"
  have m: "maintainAspect (page_1000x500\<lparr>widthInput := v\<rparr>)"
          "maintainAspect (page_1000x500\<lparr>heightInput := v\<rparr>)"
          "maintainAspect (page_1001x333\<lparr>widthInput := v\<rparr>)"
          "maintainAspect (page_1001x333\<lparr>heightInput := v\<rparr>)" for v
    by (simp_all add: page_1000x500_maintain page_1001x333_maintain)
  have g: "js_gt0 (originalAspectRatio (page_1000x500\<lparr>widthInput := v\<rparr>))"
          "js_gt0 (originalAspectRatio (page_1000x500\<lparr>heightInput := v\<rparr>))"
          "js_gt0 (originalAspectRatio (page_1001x333\<lparr>widthInput := v\<rparr>))"
          "js_gt0 (originalAspectRatio (page_1001x333\<lparr>heightInput := v\<rparr>))" for v
    by (simp_all add: page_1000x500_ratio page_1001x333_ratio js_gt0_def)
  have e1: "heightInput (handleWidthChange (page_1000x500\<lparr>widthInput := ''400''\<rparr>)) = ''200''"
    using aspect_ratio_lock [OF m(1) [of "''400''"] g(1) [of "''400''"]]
    by (simp add: page_1000x500_ratio num_width400)
  have e2: "widthInput (handleHeightChange (page_1000x500\<lparr>heightInput := ''100''\<rparr>)) = ''200''"
    using aspect_ratio_lock [OF m(2) [of "''100''"] g(2) [of "''100''"]]
    by (simp add: page_1000x500_ratio num_height100)
  have r: "originalAspectRatio (page_1000x500\<lparr>widthInput := v\<rparr>) = Fin 2"
          "originalAspectRatio (page_1000x500\<lparr>heightInput := v\<rparr>) = Fin 2"
          "originalAspectRatio (page_1001x333\<lparr>widthInput := v\<rparr>) = Fin ?A"
          "originalAspectRatio (page_1001x333\<lparr>heightInput := v\<rparr>) = Fin ?A" for v
    by (simp_all add: page_1000x500_ratio page_1001x333_ratio)
  have p: "js_parseInt (widthInput (page_1000x500\<lparr>widthInput := ''333''\<rparr>)) = Fin 333"
          "js_parseInt (widthInput (page_1000x500\<lparr>widthInput := ''abc''\<rparr>)) = NaN"
          "js_parseInt (heightInput (page_1000x500\<lparr>heightInput := ''abc''\<rparr>)) = NaN"
          "js_parseInt (widthInput (page_1001x333\<lparr>widthInput := ''500''\<rparr>)) = Fin 500"
          "js_parseInt (heightInput (page_1001x333\<lparr>heightInput := ''33''\<rparr>)) = Fin 33"
    by (simp_all add: num_parse_fields)
  have "heightInput (handleWidthChange (page_1000x500\<lparr>widthInput := ''333''\<rparr>)) =
          js_toString (Fin (of_int \<lfloor>(333 / 2 :: rat) + 1 / 2\<rfloor>))"
    using aspect_ratio_lock [OF m(1) [of "''333''"] g(1) [of "''333''"], of 2 333 "333 / 2"]
          r(1) [of "''333''"] p(1) num_333_over_2
    by blast
  then have e3: "heightInput (handleWidthChange (page_1000x500\<lparr>widthInput := ''333''\<rparr>)) = ''167''"
    by (simp only: num_round_167 of_int_numeral num_strings)
  have e4: "heightInput (handleWidthChange (page_1000x500\<lparr>widthInput := ''abc''\<rparr>)) = ''0''"
    using aspect_ratio_lock [OF m(1) [of "''abc''"] g(1) [of "''abc''"], of 2]
          r(1) [of "''abc''"] p(2)
    by blast
  have e5: "widthInput (handleHeightChange (page_1000x500\<lparr>heightInput := ''abc''\<rparr>)) = ''0''"
    using aspect_ratio_lock [OF m(2) [of "''abc''"] g(2) [of "''abc''"], of 2]
          r(2) [of "''abc''"] p(3)
    by blast
  have "heightInput (handleWidthChange (page_1001x333\<lparr>widthInput := ''500''\<rparr>)) =
          js_toString (Fin (of_int \<lfloor>(365771600448959 / 2199023255552 :: rat) + 1 / 2\<rfloor>))"
    using aspect_ratio_lock [OF m(3) [of "''500''"] g(3) [of "''500''"],
            of ?A 500 "365771600448959 / 2199023255552"]
          r(3) [of "''500''"] p(4) num_500_over_ratio
    by blast
  then have e6: "heightInput (handleWidthChange (page_1001x333\<lparr>widthInput := ''500''\<rparr>)) = ''166''"
    by (simp only: num_round_166 of_int_numeral num_strings)
  have "widthInput (handleHeightChange (page_1001x333\<lparr>heightInput := ''33''\<rparr>)) =
          js_toString (Fin (of_int \<lfloor>(6980452631894219 / 70368744177664 :: rat) + 1 / 2\<rfloor>))"
    using aspect_ratio_lock [OF m(4) [of "''33''"] g(4) [of "''33''"],
            of ?A _ _ 33 "6980452631894219 / 70368744177664"]
          r(4) [of "''33''"] p(5) num_33_times_ratio
    by blast
  then have e7: "widthInput (handleHeightChange (page_1001x333\<lparr>heightInput := ''33''\<rparr>)) = ''99''"
    by (simp only: num_round_99 of_int_numeral num_strings)
  from e1 e2 e3 e4 e5 e6 e7 page_1000x500_maintain page_1000x500_ratio page_1001x333_ratio
  show ?thesis by blast
qed


section \<open>Upload\<close>

lemma decoded_displayOriginalImage: "decoded (displayOriginalImage h f s) = decoded s @ [f]"
  by (simp add: displayOriginalImage_def Let_def split: option.splits prod.splits)

lemma uploadedFiles_displayOriginalImage:
  "uploadedFiles (displayOriginalImage h f s) = uploadedFiles s"
  by (simp add: displayOriginalImage_def Let_def split: option.splits prod.splits)

lemma alerts_displayOriginalImage: "alerts (displayOriginalImage h f s) = alerts s"
  by (simp add: displayOriginalImage_def Let_def split: option.splits prod.splits)

lemma processFiles_none:
  "filter isImageFile files = [] \<Longrightarrow>
   processFiles h files s = s\<lparr>alerts := alerts s @ [''Please upload JPG, PNG, or WebP images only.'']\<rparr>"
  by (simp add: processFiles_def)

lemma processFiles_some:
  assumes "filter isImageFile files \<noteq> []"
  shows "uploadedFiles (processFiles h files s) = filter isImageFile files"
    and "alerts (processFiles h files s) = alerts s"
    and "decoded (processFiles h files s) = decoded s @ [hd (filter isImageFile files)]"
  using assms
  by (simp_all add: processFiles_def Let_def uploadedFiles_displayOriginalImage
        alerts_displayOriginalImage decoded_displayOriginalImage)

section \<open>Batch\<close>

lemma dispatch_frame:
  assumes "dispatch h f s = (e, s')"
  shows "uploadedFiles s' = uploadedFiles s" and "compressedFiles s' = compressedFiles s"
    and "set (decoded s') \<subseteq> set (decoded s) \<union> {f}"
    and "formatSelect s' = formatSelect s"
  using assms
  by (auto simp: dispatch_def Let_def createObjectURL_def revokeObjectURL_def
           split: if_splits option.splits prod.splits)

lemma onmessage_frame:
  "uploadedFiles (onmessage u r s) = uploadedFiles s"
  "decoded (onmessage u r s) = decoded s"
  "length (compressedFiles (onmessage u r s)) = Suc (length (compressedFiles s))"
  by (simp_all add: onmessage_def Let_def createObjectURL_def revokeObjectURL_def
        addBatchResultItem_def split: prod.splits)

lemma batchStep_frame:
  "uploadedFiles (batchStep h u f s) = uploadedFiles s"
  "set (decoded (batchStep h u f s)) \<subseteq> set (decoded s) \<union> {f}"
proof -
  obtain e s' where d: "dispatch h f s = (e, s')" by (cases "dispatch h f s")
  show "uploadedFiles (batchStep h u f s) = uploadedFiles s"
    using dispatch_frame(1) [OF d] d
    by (simp add: batchStep_def Let_def onmessage_frame split: option.splits)
  show "set (decoded (batchStep h u f s)) \<subseteq> set (decoded s) \<union> {f}"
    using dispatch_frame(3) [OF d] d
    by (auto simp: batchStep_def Let_def onmessage_frame split: option.splits)
qed

lemma fold_batchStep_decoded:
  "set (decoded (fold (batchStep h u) fs s)) \<subseteq> set (decoded s) \<union> set fs"
proof (induction fs arbitrary: s)
  case Nil
  then show ?case by simp
next
  case (Cons f fs)
  from Cons.IH [of "batchStep h u f s"] batchStep_frame(2) [of h u f s]
  show ?case by auto
qed

lemma decoded_processBatchWithWorker:
  "set (decoded (processBatchWithWorker h s)) \<subseteq> set (decoded s) \<union> set (uploadedFiles s)"
  using fold_batchStep_decoded [of h "nextURL s" "uploadedFiles s"
          "s\<lparr>processedCount := 0, batchResults := [], objectURLs := objectURLs s @ [nextURL s],
             nextURL := Suc (nextURL s), workerRunning := True\<rparr>"]
  by (simp add: processBatchWithWorker_def Let_def createObjectURL_def)

lemma decoded_compressImage: "decoded (snd (compressImage h f s)) = decoded s @ [f]"
  by (simp add: compressImage_def Let_def createObjectURL_def split: option.splits prod.splits)

lemma decoded_compressImages:
  "set (decoded (compressImages h s)) \<subseteq> set (decoded s) \<union> set (uploadedFiles s)"
proof (cases "length (uploadedFiles s) = 1")
  case True
  then obtain f where f: "uploadedFiles s = [f]" by (cases "uploadedFiles s") auto
  obtain x s' where c: "compressImage h f (s\<lparr>compressedFiles := []\<rparr>) = (x, s')"
    by (cases "compressImage h f (s\<lparr>compressedFiles := []\<rparr>)")
  from decoded_compressImage [of h f "s\<lparr>compressedFiles := []\<rparr>"] c
  have "decoded s' = decoded s @ [f]" by simp
  with f c show ?thesis
    by (cases x) (simp_all add: compressImages_def Let_def)
next
  case False
  then show ?thesis
    using decoded_processBatchWithWorker [of h "s\<lparr>compressedFiles := []\<rparr>"]
    by (simp add: compressImages_def Let_def)
qed

text \<open>
  Claim C6, as amended. Files of any other MIME type are filtered out before anything
  is read or decoded: after an upload that holds a supported file, the uploaded files are
  exactly the supported files of the selection, and no message is raised for the others;
  the message is raised only when the selection holds no supported file, and the page is
  then left as it was. From a page whose files are all supported, every file handed to a
  reader or decoder by the upload and a following compression is a supported one.
\<close>

theorem processFiles_filters:
  "(filter isImageFile files = [] \<longrightarrow>
      processFiles h files s =
        s\<lparr>alerts := alerts s @ [''Please upload JPG, PNG, or WebP images only.'']\<rparr>)
   \<and> (filter isImageFile files \<noteq> [] \<longrightarrow>
      uploadedFiles (processFiles h files s) = filter isImageFile files
      \<and> alerts (processFiles h files s) = alerts s)
   \<and> (list_all isImageFile (uploadedFiles s) \<and> list_all isImageFile (decoded s) \<longrightarrow>
      list_all isImageFile (uploadedFiles (processFiles h files s))
      \<and> list_all isImageFile (decoded (compressImages h (processFiles h files s))))"
proof (intro conjI impI)
  show "processFiles h files s =
          s\<lparr>alerts := alerts s @ [''Please upload JPG, PNG, or WebP images only.'']\<rparr>"
    if "filter isImageFile files = []"
    using that by (rule processFiles_none)
  show "uploadedFiles (processFiles h files s) = filter isImageFile files"
    if "filter isImageFile files \<noteq> []"
    using that by (rule processFiles_some)
  show "alerts (processFiles h files s) = alerts s" if "filter isImageFile files \<noteq> []"
    using that by (rule processFiles_some)
  assume inv: "list_all isImageFile (uploadedFiles s) \<and> list_all isImageFile (decoded s)"
  show u: "list_all isImageFile (uploadedFiles (processFiles h files s))"
  proof (cases "filter isImageFile files = []")
    case True
    with inv show ?thesis by (simp add: processFiles_none)
  next
    case False
    then show ?thesis by (simp add: processFiles_some list_all_iff)
  qed
  have d: "list_all isImageFile (decoded (processFiles h files s))"
  proof (cases "filter isImageFile files = []")
    case True
    with inv show ?thesis by (simp add: processFiles_none)
  next
    case False
    then have "hd (filter isImageFile files) \<in> set (filter isImageFile files)"
      by (rule hd_in_set)
    then have "isImageFile (hd (filter isImageFile files))"
      by (simp only: set_filter mem_Collect_eq)
    with False inv show ?thesis by (simp add: processFiles_some)
  qed
  show "list_all isImageFile (decoded (compressImages h (processFiles h files s)))"
    using decoded_compressImages [of h "processFiles h files s"] u d
    by (auto simp: list_all_iff)
qed

theorem processFiles_filters_witness:
  "processFiles good_host [anim_gif] page0 =
     page0\<lparr>alerts := [''Please upload JPG, PNG, or WebP images only.'']\<rparr>
   \<and> uploadedFiles (processFiles good_host [anim_gif, photo_png] page0) = [photo_png]
   \<and> alerts (processFiles good_host [anim_gif, photo_png] page0) = []
   \<and> list_all isImageFile
        (decoded (compressImages good_host (processFiles good_host [anim_gif, photo_png] page0)))"
proof -
  have f: "filter isImageFile [anim_gif] = []"
          "filter isImageFile [anim_gif, photo_png] = [photo_png]"
    by (simp_all add: isImageFile_def anim_gif_def photo_png_def)
  have i: "list_all isImageFile (uploadedFiles page0) \<and> list_all isImageFile (decoded page0)"
    by (simp add: page0_def)
  show ?thesis
    using processFiles_filters [of "[anim_gif]" good_host page0]
          processFiles_filters [of "[anim_gif, photo_png]" good_host page0] f i
    by (simp add: page0_def)
qed

theorem mixed_upload_counterexample:
  "uploadedFiles (processFiles good_host [anim_gif, photo_png] page0) = [photo_png]
   \<and> alerts (processFiles good_host [anim_gif, photo_png] page0) = []"
  by (simp add: processFiles_def displayOriginalImage_def isImageFile_def anim_gif_def
        photo_png_def good_host_def page0_def Let_def)

section \<open>Evaluation of the batch examples\<close>

lemmas batch_defs =
  compressImages_def processBatchWithWorker_def batchStep_def dispatch_def worker_def
  onmessage_def addBatchResultItem_def createObjectURL_def revokeObjectURL_def
  processFiles_def displayOriginalImage_def isImageFile_def Let_def
  getOutputFileName_def getOutputFormat_def getMimeType_def split_slash_1_def template_str_def
  good_host_def photo_png_def beach_jpg_def broken_jpg_def page0_def

lemma page_one_done_eval:
  "objectURLs page_one_done = [0]"
  "compressedFile page_one_done = Some \<lparr>blob_size = 150000, blob_type = ''image/png''\<rparr>"
  "compressedFiles page_one_done = []"
  by (simp_all add: page_one_done_def page_one_file_def batch_defs compressImage_eq)

lemma page_one_file_eval:
  "nextURL page_one_file = 0" "objectURLs page_one_file = []"
  by (simp_all add: page_one_file_def batch_defs)

lemma page_two_done_eval:
  "compressedFiles page_two_done = []"
  "batchResults page_two_done = []"
  "objectURLs page_two_done = [0]"
  "workerRunning page_two_done = True"
  by (simp_all add: page_two_done_def page_two_files_def batch_defs)

lemma page_three_done_eval:
  "compressedFiles page_three_done = []"
  "processedCount page_three_done = 0"
  "alerts page_three_done = []"
  "downloadAllBtn_disabled page_three_done = True"
  "workerRunning page_three_done = True"
  by (simp_all add: page_three_done_def page_three_files_def batch_defs)

section \<open>A batch with a file that fails\<close>

lemma dispatch_request:
  assumes "dispatch h f s = (Some e, s')"
  shows "q_file e = f" and "downloadAllBtn_disabled s' = downloadAllBtn_disabled s"
  using assms
  by (auto simp: dispatch_def Let_def createObjectURL_def revokeObjectURL_def
           split: if_splits option.splits prod.splits)

lemma dispatch_none:
  assumes "dispatch h f s = (None, s')"
  shows "downloadAllBtn_disabled s' = downloadAllBtn_disabled s"
  using assms
  by (auto simp: dispatch_def Let_def createObjectURL_def revokeObjectURL_def
           split: if_splits option.splits prod.splits)

lemma worker_fails:
  assumes "fails h f" and "q_file e = f"
  shows "worker h e = None"
  using assms by (auto simp: fails_def worker_def Let_def split: option.splits prod.splits)

lemma onmessage_button:
  "downloadAllBtn_disabled (onmessage u r s) =
     (downloadAllBtn_disabled s \<and> Suc (length (compressedFiles s)) \<noteq> length (uploadedFiles s))"
  by (simp add: onmessage_def Let_def createObjectURL_def revokeObjectURL_def
        addBatchResultItem_def split: prod.splits)

lemma batchStep_fails:
  assumes "fails h f"
  shows "compressedFiles (batchStep h u f s) = compressedFiles s"
    and "downloadAllBtn_disabled (batchStep h u f s) = downloadAllBtn_disabled s"
proof -
  obtain e s' where d: "dispatch h f s = (e, s')" by (cases "dispatch h f s")
  show "compressedFiles (batchStep h u f s) = compressedFiles s"
  proof (cases e)
    case None
    with d dispatch_frame(2) [OF d] show ?thesis by (simp add: batchStep_def)
  next
    case (Some q)
    with d have "worker h q = None" using worker_fails [OF assms] dispatch_request(1) by blast
    with d Some dispatch_frame(2) [OF d] show ?thesis by (simp add: batchStep_def Let_def)
  qed
  show "downloadAllBtn_disabled (batchStep h u f s) = downloadAllBtn_disabled s"
  proof (cases e)
    case None
    with d dispatch_none show ?thesis by (simp add: batchStep_def)
  next
    case (Some q)
    with d have "worker h q = None" using worker_fails [OF assms] dispatch_request(1) by blast
    with d Some dispatch_request(2) show ?thesis by (simp add: batchStep_def Let_def)
  qed
qed

lemma batchStep_count:
  "length (compressedFiles (batchStep h u f s)) \<le> Suc (length (compressedFiles s))"
proof -
  obtain e s' where d: "dispatch h f s = (e, s')" by (cases "dispatch h f s")
  from d dispatch_frame(2) [OF d] show ?thesis
    by (simp add: batchStep_def Let_def onmessage_frame split: option.splits)
qed

lemma batchStep_button:
  assumes "downloadAllBtn_disabled s"
    and "length (compressedFiles s) + 1 < length (uploadedFiles s)"
  shows "downloadAllBtn_disabled (batchStep h u f s)"
proof -
  obtain e s' where d: "dispatch h f s = (e, s')" by (cases "dispatch h f s")
  show ?thesis
  proof (cases e)
    case None
    with d dispatch_none assms show ?thesis by (simp add: batchStep_def)
  next
    case (Some q)
    with d have b: "downloadAllBtn_disabled s'" using dispatch_request(2) assms by blast
    from dispatch_frame [OF d] assms
    have "Suc (length (compressedFiles s')) \<noteq> length (uploadedFiles s')" by simp
    with b d Some show ?thesis
      by (simp add: batchStep_def Let_def onmessage_button split: option.splits)
  qed
qed

lemma fold_batchStep_incomplete:
  assumes "downloadAllBtn_disabled s"
    and "length (compressedFiles s) + length (filter (\<lambda>f. \<not> fails h f) fs)
           < length (uploadedFiles s)"
  shows "downloadAllBtn_disabled (fold (batchStep h u) fs s)
       \<and> length (compressedFiles (fold (batchStep h u) fs s)) < length (uploadedFiles s)"
  using assms
proof (induction fs arbitrary: s)
  case Nil
  then show ?case by simp
next
  case (Cons f fs)
  let ?s = "batchStep h u f s"
  have u: "uploadedFiles ?s = uploadedFiles s" by (rule batchStep_frame)
  show ?case
  proof (cases "fails h f")
    case False
    with Cons.prems(2)
    have lt: "length (compressedFiles s) + 1 + length (filter (\<lambda>f. \<not> fails h f) fs)
                < length (uploadedFiles s)"
      by simp
    then have b: "downloadAllBtn_disabled ?s"
      using batchStep_button [OF Cons.prems(1), of h u f] by simp
    have "length (compressedFiles ?s) + length (filter (\<lambda>f. \<not> fails h f) fs)
            < length (uploadedFiles ?s)"
      using lt batchStep_count [of h u f s] u by simp
    from Cons.IH [OF b this] u show ?thesis by simp
  next
    case True
    have b: "downloadAllBtn_disabled ?s"
      using batchStep_fails(2) [OF True, of u s] Cons.prems(1) by simp
    have "length (compressedFiles ?s) + length (filter (\<lambda>f. \<not> fails h f) fs)
            < length (uploadedFiles ?s)"
      using Cons.prems(2) True batchStep_fails(1) [OF True, of u s] u by simp
    from Cons.IH [OF b this] u show ?thesis by simp
  qed
qed

lemma filter_length_less:
  assumes "x \<in> set xs" and "\<not> P x"
  shows "length (filter P xs) < length xs"
  using assms by (induction xs) (auto simp: less_Suc_eq_le)

text \<open>
  Claim C2, what the code does instead. In a batch of more than one file, a file that
  cannot be read, cannot be decoded, or for which the encoder hands over \<open>null\<close>
  produces no reply and no failure record: the number of processed files stays below the
  number of uploaded files and the batch never reaches its completed state (the
  download-all button stays disabled).
\<close>

theorem batch_with_failing_file:
  assumes "1 < length (uploadedFiles s)" and "f \<in> set (uploadedFiles s)"
    and "fails h f" and "downloadAllBtn_disabled s"
  shows "length (compressedFiles (compressImages h s)) < length (uploadedFiles s)
       \<and> downloadAllBtn_disabled (compressImages h s)"
proof -
  let ?s = "s\<lparr>compressedFiles := [], processedCount := 0, batchResults := [],
              objectURLs := objectURLs s @ [nextURL s], nextURL := Suc (nextURL s),
              workerRunning := True\<rparr>"
  from assms(2,3)
  have "length (filter (\<lambda>f. \<not> fails h f) (uploadedFiles s)) < length (uploadedFiles s)"
    by (intro filter_length_less [of f]) simp_all
  then have "length (compressedFiles ?s) + length (filter (\<lambda>f. \<not> fails h f) (uploadedFiles s))
               < length (uploadedFiles ?s)"
    by simp
  moreover have "downloadAllBtn_disabled ?s" using assms(4) by simp
  ultimately have "downloadAllBtn_disabled (fold (batchStep h (nextURL s)) (uploadedFiles s) ?s)
       \<and> length (compressedFiles (fold (batchStep h (nextURL s)) (uploadedFiles s) ?s))
           < length (uploadedFiles ?s)"
    by (intro fold_batchStep_incomplete)
  moreover have "compressImages h s = fold (batchStep h (nextURL s)) (uploadedFiles s) ?s"
  proof -
    from assms(1) have "uploadedFiles s \<noteq> []" "length (uploadedFiles s) \<noteq> Suc 0"
      by auto
    then show ?thesis
      by (simp add: compressImages_def processBatchWithWorker_def Let_def createObjectURL_def)
  qed
  ultimately show ?thesis by simp
qed

lemma page_three_files_eval:
  "uploadedFiles page_three_files = [photo_png, broken_jpg, beach_jpg]"
  "downloadAllBtn_disabled page_three_files"
  by (simp_all add: page_three_files_def processFiles_def displayOriginalImage_def
        isImageFile_def photo_png_def broken_jpg_def beach_jpg_def good_host_def page0_def Let_def)

theorem batch_with_failing_file_witness:
  "length (uploadedFiles page_three_files) = 3
   \<and> broken_jpg \<in> set (uploadedFiles page_three_files)
   \<and> fails good_host broken_jpg
   \<and> length (compressedFiles page_three_done) < length (uploadedFiles page_three_files)
   \<and> compressedFiles page_three_done = []
   \<and> processedCount page_three_done = 0
   \<and> alerts page_three_done = []
   \<and> downloadAllBtn_disabled page_three_done
   \<and> workerRunning page_three_done"
proof -
  have a: "1 < length (uploadedFiles page_three_files)"
          "broken_jpg \<in> set (uploadedFiles page_three_files)"
    by (simp_all add: page_three_files_eval)
  have c: "fails good_host broken_jpg"
    by (simp add: fails_def good_host_def broken_jpg_def)
  show ?thesis
    using batch_with_failing_file [OF a c page_three_files_eval(2), folded page_three_done_def] c
    by (simp add: page_three_files_eval page_three_done_eval)
qed

section \<open>The batch path against the single-file path\<close>

lemma page_two_files_eval:
  "formatSelect page_two_files = ''same''"
  "uploadedFiles page_two_files = [photo_png, beach_jpg]"
  by (simp_all add: page_two_files_def processFiles_def displayOriginalImage_def isImageFile_def
        photo_png_def beach_jpg_def good_host_def page0_def Let_def)

lemma worker_no_reply: "worker h e = None"
  by (simp add: worker_def Let_def)

lemma batchStep_no_reply:
  "compressedFiles (batchStep h u f s) = compressedFiles s"
  "batchResults (batchStep h u f s) = batchResults s"
  "processedCount (batchStep h u f s) = processedCount s"
  "workerRunning (batchStep h u f s) = workerRunning s"
  by (auto simp: batchStep_def dispatch_def worker_no_reply Let_def createObjectURL_def
        revokeObjectURL_def split: if_splits option.splits prod.splits)

lemma fold_batchStep_no_reply:
  "compressedFiles (fold (batchStep h u) fs s) = compressedFiles s
   \<and> batchResults (fold (batchStep h u) fs s) = batchResults s
   \<and> processedCount (fold (batchStep h u) fs s) = processedCount s
   \<and> workerRunning (fold (batchStep h u) fs s) = workerRunning s"
  by (induction fs arbitrary: s) (simp_all add: batchStep_no_reply)

lemma processBatchWithWorker_no_reply:
  "compressedFiles (processBatchWithWorker h s) = compressedFiles s"
  "batchResults (processBatchWithWorker h s) = []"
  "processedCount (processBatchWithWorker h s) = 0"
  "workerRunning (processBatchWithWorker h s)"
  by (simp_all add: processBatchWithWorker_def Let_def createObjectURL_def
        fold_batchStep_no_reply)

text \<open>
  Claim C4, what the code does instead. For more than one uploaded file, the batch path
  produces no output for any file: the worker never posts a reply, so \<open>compressedFiles\<close>
  and the result rows stay empty, the processed count stays 0 and the worker is left
  running. The single-file pipeline, applied to a file of the batch, does produce a
  result, with its name, MIME type and dimensions.
\<close>

theorem batch_produces_no_output:
  assumes "1 < length (uploadedFiles s)"
  shows "compressedFiles (compressImages h s) = [] \<and> batchResults (compressImages h s) = []
       \<and> processedCount (compressImages h s) = 0 \<and> workerRunning (compressImages h s)"
proof -
  from assms have "uploadedFiles s \<noteq> []" "length (uploadedFiles s) \<noteq> Suc 0" by auto
  then show ?thesis
    by (simp add: compressImages_def Let_def processBatchWithWorker_no_reply)
qed

theorem batch_produces_no_output_witness:
  "1 < length (uploadedFiles page_two_files)
   \<and> photo_png \<in> set (uploadedFiles page_two_files)
   \<and> \<not> isl (fst (compressImage good_host photo_png page_two_files))
   \<and> r_name (projr (fst (compressImage good_host photo_png page_two_files))) = ''photo-compressed.png''
   \<and> r_type (projr (fst (compressImage good_host photo_png page_two_files))) = ''image/png''
   \<and> compressedFiles page_two_done = [] \<and> batchResults page_two_done = []
   \<and> processedCount page_two_done = 0 \<and> workerRunning page_two_done"
proof -
  have a: "1 < length (uploadedFiles page_two_files)" by (simp add: page_two_files_eval)
  have b: "\<not> isl (fst (compressImage good_host photo_png page_two_files))"
    "r_name (projr (fst (compressImage good_host photo_png page_two_files))) = ''photo-compressed.png''"
    "r_type (projr (fst (compressImage good_host photo_png page_two_files))) = ''image/png''"
    by (simp_all add: compressImage_eq page_two_files_eval good_host_def photo_png_def
          getOutputFileName_def getOutputFormat_def getMimeType_def split_slash_1_def
          template_str_def)
  show ?thesis
    using batch_produces_no_output [OF a, of good_host, folded page_two_done_def] a b
    by (simp add: page_two_files_eval)
qed

text \<open>
  Where the two paths agree: with resizing off, or pixel resizing with a non-zero number
  in both fields, or percentage resizing, the request built for a file carries the MIME
  type and quality of the single-file result, and, when it asks for resizing, its
  dimensions.
\<close>

lemma dispatch_matches_compressImage:
  assumes "compressImage h f s = (Inr r, s2)" and "dispatch h f s = (Some e, s1)"
    and "resizeToggle s \<longrightarrow>
           (resize_pixels s \<and> js_truthy (js_parseInt (widthInput s))
              \<and> js_truthy (js_parseInt (heightInput s)))
           \<or> (\<not> resize_pixels s \<and> resize_percentage s)"
  shows "q_file e = f" and "q_outputFormat e = r_type r" and "q_quality e = quality s"
    and "q_resize e = resizeToggle s"
    and "q_resize e \<longrightarrow> q_width e = r_width r \<and> q_height e = r_height r"
  using assms
  by (auto simp: compressImage_eq dispatch_def dimensions_def Let_def js_or_def
        createObjectURL_def revokeObjectURL_def quality_def
        split: if_splits option.splits prod.splits)

text \<open>
  The naming in \<open>worker.onmessage\<close> (line 515), should a reply ever arrive: the MIME type
  of the blob is passed to \<open>getMimeType\<close>, which expects a format and answers
  \<open>image/jpeg\<close> for every MIME type; with the format left at \<open>same\<close> the entry is
  named \<open>.jpeg\<close> whatever the blob's type.
\<close>

lemma onmessage_names_jpeg:
  assumes "formatSelect s = ''same''" and "CHR ''/'' \<in> set (blob_type (w_blob r))"
  shows "map c_name (compressedFiles (onmessage u r s)) =
           map c_name (compressedFiles s) @ [getOutputFileName (w_name r) (Some ''jpeg'')]"
proof -
  from assms(2) have "getMimeType (Some (blob_type (w_blob r))) = ''image/jpeg''"
    by (auto simp: getMimeType_def)
  then have "getOutputFormat (formatSelect s) (getMimeType (Some (blob_type (w_blob r)))) = Some ''jpeg''"
    using assms(1) by (simp add: getOutputFormat_def split_slash_1_def)
  then show ?thesis
    by (simp add: onmessage_def Let_def createObjectURL_def revokeObjectURL_def
          addBatchResultItem_def split: prod.splits)
qed


section \<open>Reset\<close>

text \<open>
  Claim C9, what the code does instead. \<open>resetApp\<close> empties \<open>uploadedFiles\<close> and
  \<open>compressedFiles\<close> and clears \<open>currentFile\<close> and \<open>compressedFile\<close>, but it revokes
  no object URL and terminates no worker, in any state: the loop that revokes runs over
  \<open>compressedFiles\<close> after it has been emptied. After one file has been compressed,
  the object URL 0 made for the compressed result is still alive after the reset; after
  a batch of two files, the worker is still running and the URL of its code still alive.
\<close>

theorem resetApp_revokes_nothing:
  "uploadedFiles (resetApp s) = [] \<and> compressedFiles (resetApp s) = []
   \<and> currentFile (resetApp s) = None \<and> compressedFile (resetApp s) = None
   \<and> objectURLs (resetApp s) = objectURLs s
   \<and> workerRunning (resetApp s) = workerRunning s
   \<and> r_url (projr (fst (compressImage good_host photo_png page_one_file))) = 0
   \<and> objectURLs page_one_done = [0]
   \<and> objectURLs (resetApp page_one_done) = [0]
   \<and> objectURLs (resetApp page_two_done) = [0]
   \<and> workerRunning (resetApp page_two_done)"
  by (simp add: resetApp_def page_one_done_eval page_two_done_eval page_one_file_eval
        compressImage_eq good_host_def photo_png_def)

end
